theory Spec2Isabelle
  imports Complex_Main "HOL-Library.Sublist"
begin

text \<open>
  The query building and pagination of the property list, the classification of new
  contact inquiries and their workflow, the derived price strings of services and
  listings, and the public read of a service, each as a function of the request and of
  the stored documents.
\<close>

section \<open>JavaScript strings\<close>

text \<open>
  Strings are lists of characters. Lower-casing is modelled on the ASCII letters, which is
  where every keyword of the program lives; other characters are left as they are.
\<close>

definition upper_letters :: string where
  "upper_letters = ''ABCDEFGHIJKLMNOPQRSTUVWXYZ''"

definition lower_letters :: string where
  "lower_letters = ''abcdefghijklmnopqrstuvwxyz''"

definition toLowerCase_char :: "char \<Rightarrow> char" where
  "toLowerCase_char c =
     (case map_of (zip upper_letters lower_letters) c of Some l \<Rightarrow> l | None \<Rightarrow> c)"

definition toLowerCase :: "string \<Rightarrow> string" where
  "toLowerCase s = map toLowerCase_char s"

text \<open>
  White space, on the ASCII characters, and \<open>s.trim()\<close>, which removes it from both ends.
\<close>

definition is_space :: "char \<Rightarrow> bool" where
  "is_space c = (c \<in> set [CHR '' '', CHR 0x09, CHR 0x0A, CHR 0x0B, CHR 0x0C, CHR 0x0D])"

definition trim :: "string \<Rightarrow> string" where
  "trim s = rev (dropWhile is_space (rev (dropWhile is_space s)))"

text \<open>\<open>t.includes(k)\<close>: \<open>k\<close> occurs in \<open>t\<close> as a contiguous run of characters.\<close>

fun str_includes :: "'a list \<Rightarrow> 'a list \<Rightarrow> bool" where
  "str_includes [] k = (k = [])"
| "str_includes (c # cs) k = (prefix k (c # cs) \<or> str_includes cs k)"

text \<open>JavaScript truthiness of an optional string: \<open>undefined\<close> and \<open>''\<close> are falsy.\<close>

fun truthy :: "string option \<Rightarrow> bool" where
  "truthy None = False"
| "truthy (Some s) = (s \<noteq> [])"

text \<open>\<open>[...new Set(xs)]\<close>: the elements in order of first insertion.\<close>

fun set_add_all :: "'a list \<Rightarrow> 'a list \<Rightarrow> 'a list" where
  "set_add_all seen [] = seen"
| "set_add_all seen (x # xs) =
     set_add_all (if x \<in> set seen then seen else seen @ [x]) xs"

definition spread_new_Set :: "'a list \<Rightarrow> 'a list" where
  "spread_new_Set xs = set_add_all [] xs"


section \<open>The Contact model (models/Contact.js)\<close>

text \<open>
  The fields of a contact document that the classification and the workflow read or
  write, as Mongoose holds them after casting. \<open>c_isNew\<close> is Mongoose's \<open>isNew\<close> flag:
  true until the document has been saved for the first time. Dates are milliseconds.
\<close>

record contact =
  c_message :: string
  c_subject :: "string option"
  c_status :: string
  c_priority :: string
  c_notes :: "string option"
  c_assignedTo :: "string option"
  c_responseDate :: "nat option"
  c_tags :: "string list"
  c_isNew :: bool

datatype error = ValidationError | NotFound

definition status_enum :: "string list" where
  "status_enum = [''pending'', ''contacted'', ''resolved'', ''spam'']"

definition priority_enum :: "string list" where
  "priority_enum = [''low'', ''medium'', ''high'', ''urgent'']"

fun maxlength :: "nat \<Rightarrow> string option \<Rightarrow> bool" where
  "maxlength n None = True"
| "maxlength n (Some s) = (length s \<le> n)"

text \<open>The schema validators of the modelled fields.\<close>

definition contact_validate :: "contact \<Rightarrow> bool" where
  "contact_validate c =
     (10 \<le> length (c_message c) \<and> length (c_message c) \<le> 1000
      \<and> maxlength 200 (c_subject c)
      \<and> c_status c \<in> set status_enum
      \<and> c_priority c \<in> set priority_enum
      \<and> maxlength 500 (c_notes c))"

definition urgentKeywords :: "string list" where
  "urgentKeywords = [''urgent'', ''asap'', ''immediately'', ''emergency'']"

definition highKeywords :: "string list" where
  "highKeywords = [''important'', ''priority'', ''soon'', ''quickly'']"

definition messageText :: "contact \<Rightarrow> string" where
  "messageText c =
     toLowerCase (c_message c @ '' '' @ (if truthy (c_subject c) then the (c_subject c) else []))"

definition auto_tags :: "string \<Rightarrow> string list" where
  "auto_tags t =
     (if str_includes t ''viewing'' \<or> str_includes t ''visit'' then [''viewing-request''] else [])
     @ (if str_includes t ''price'' \<or> str_includes t ''cost'' then [''pricing-inquiry''] else [])
     @ (if str_includes t ''mortgage'' \<or> str_includes t ''financing'' then [''financing''] else [])
     @ (if str_includes t ''investment'' then [''investment''] else [])"

text \<open>The \<open>pre('save')\<close> hook of the contact schema.\<close>

definition contact_pre_save :: "contact \<Rightarrow> contact" where
  "contact_pre_save c =
     (if c_isNew c then
        (let t = messageText c;
             c1 = (if list_ex (str_includes t) urgentKeywords then c\<lparr>c_priority := ''urgent''\<rparr>
                   else if list_ex (str_includes t) highKeywords then c\<lparr>c_priority := ''high''\<rparr>
                   else c)
         in c1\<lparr>c_tags := spread_new_Set (c_tags c1 @ auto_tags t)\<rparr>)
      else c)"

text \<open>
  \<open>doc.save()\<close>: validation runs first, then the hook, then the document is stored and
  is no longer new.
\<close>

definition contact_save :: "contact \<Rightarrow> error + contact" where
  "contact_save c =
     (if contact_validate c then Inr ((contact_pre_save c)\<lparr>c_isNew := False\<rparr>)
      else Inl ValidationError)"

text \<open>
  \<open>Contact.create(data)\<close>: a new document made of the caller's data, then saved. The
  schema casts what the caller gives: the message and the subject are trimmed, every tag
  is lower-cased and trimmed, and the fields the caller left out get their defaults.
\<close>

record contact_data =
  d_message :: string
  d_subject :: "string option"
  d_priority :: "string option"
  d_tags :: "string list"

definition new_Contact :: "contact_data \<Rightarrow> contact" where
  "new_Contact d =
     \<lparr>c_message = trim (d_message d),
      c_subject = map_option trim (d_subject d),
      c_status = ''pending'',
      c_priority = (case d_priority d of None \<Rightarrow> ''medium'' | Some p \<Rightarrow> p),
      c_notes = None,
      c_assignedTo = None,
      c_responseDate = None,
      c_tags = map (\<lambda>tag. trim (toLowerCase tag)) (d_tags d),
      c_isNew = True\<rparr>"

definition Contact_create :: "contact_data \<Rightarrow> error + contact" where
  "Contact_create d = contact_save (new_Contact d)"


section \<open>The contact workflow (controllers/contactController.js)\<close>

text \<open>
  The store maps an id to the stored document. A document loaded from the store is never
  new.
\<close>

type_synonym contact_store = "nat \<Rightarrow> contact option"

definition Contact_findById :: "contact_store \<Rightarrow> nat \<Rightarrow> contact option" where
  "Contact_findById store cid = map_option (\<lambda>c. c\<lparr>c_isNew := False\<rparr>) (store cid)"

text \<open>The request body of the staff update, and the \<open>updateData\<close> object built from it.\<close>

record update_body =
  b_status :: "string option"
  b_notes :: "string option"
  b_assignedTo :: "string option"
  b_priority :: "string option"

record update_data =
  u_status :: "string option"
  u_notes :: "string option"
  u_assignedTo :: "string option"
  u_priority :: "string option"
  u_responseDate :: "nat option"

definition build_updateData :: "nat \<Rightarrow> update_body \<Rightarrow> contact \<Rightarrow> update_data" where
  "build_updateData now b contact =
     \<lparr>u_status = (if truthy (b_status b) then b_status b else None),
      u_notes = (if truthy (b_notes b) then b_notes b else None),
      u_assignedTo = (if truthy (b_assignedTo b) then b_assignedTo b else None),
      u_priority = (if truthy (b_priority b) then b_priority b else None),
      u_responseDate =
        (if b_status b = Some ''contacted'' \<and> c_status contact \<noteq> ''contacted''
         then Some now else None)\<rparr>"

text \<open>\<open>runValidators: true\<close>: the schema validators of the paths being updated.\<close>

definition update_validate :: "update_data \<Rightarrow> bool" where
  "update_validate u =
     ((case u_status u of None \<Rightarrow> True | Some s \<Rightarrow> s \<in> set status_enum)
      \<and> (case u_priority u of None \<Rightarrow> True | Some p \<Rightarrow> p \<in> set priority_enum)
      \<and> maxlength 500 (u_notes u))"

definition apply_update :: "update_data \<Rightarrow> contact \<Rightarrow> contact" where
  "apply_update u c =
     c\<lparr>c_status := (case u_status u of None \<Rightarrow> c_status c | Some s \<Rightarrow> s),
       c_notes := (case u_notes u of None \<Rightarrow> c_notes c | Some n \<Rightarrow> Some n),
       c_assignedTo := (case u_assignedTo u of None \<Rightarrow> c_assignedTo c | Some a \<Rightarrow> Some a),
       c_priority := (case u_priority u of None \<Rightarrow> c_priority c | Some p \<Rightarrow> p),
       c_responseDate := (case u_responseDate u of None \<Rightarrow> c_responseDate c | Some t \<Rightarrow> Some t)\<rparr>"

text \<open>
  \<open>updateContact\<close>: \<open>findByIdAndUpdate\<close> writes the update without running the save
  hooks. The result is the response (an error or the updated contact) and the new store.
\<close>

definition updateContact ::
  "nat \<Rightarrow> nat \<Rightarrow> update_body \<Rightarrow> contact_store \<Rightarrow> (error + contact) \<times> contact_store" where
  "updateContact now cid b store =
     (case Contact_findById store cid of
        None \<Rightarrow> (Inl NotFound, store)
      | Some contact \<Rightarrow>
          (let updateData = build_updateData now b contact in
           if update_validate updateData
           then (let c' = apply_update updateData contact in (Inr c', store(cid \<mapsto> c')))
           else (Inl ValidationError, store)))"

text \<open>The instance method \<open>markAsContacted\<close> of the model, and the controller that calls it.\<close>

definition contact_markAsContacted :: "nat \<Rightarrow> string option \<Rightarrow> contact \<Rightarrow> error + contact" where
  "contact_markAsContacted now notes c =
     contact_save
       (c\<lparr>c_status := ''contacted'',
          c_responseDate := Some now,
          c_notes := (if truthy notes then notes else c_notes c)\<rparr>)"

definition markAsContacted ::
  "nat \<Rightarrow> nat \<Rightarrow> string option \<Rightarrow> contact_store \<Rightarrow> (error + contact) \<times> contact_store" where
  "markAsContacted now cid notes store =
     (case Contact_findById store cid of
        None \<Rightarrow> (Inl NotFound, store)
      | Some contact \<Rightarrow>
          (case contact_markAsContacted now notes contact of
             Inl e \<Rightarrow> (Inl e, store)
           | Inr c' \<Rightarrow> (Inr c', store(cid \<mapsto> c'))))"

text \<open>Saving a loaded document again, as any later \<open>save()\<close> would.\<close>

definition resaveContact :: "nat \<Rightarrow> contact_store \<Rightarrow> (error + contact) \<times> contact_store" where
  "resaveContact cid store =
     (case Contact_findById store cid of
        None \<Rightarrow> (Inl NotFound, store)
      | Some contact \<Rightarrow>
          (case contact_save contact of
             Inl e \<Rightarrow> (Inl e, store)
           | Inr c' \<Rightarrow> (Inr c', store(cid \<mapsto> c'))))"

text \<open>
  The operations on an existing contact, each with the clock reading of its request, and
  a run of them against the store.
\<close>

datatype contact_op = Update update_body | MarkContacted "string option" | Resave

fun contact_step :: "nat \<Rightarrow> nat \<times> contact_op \<Rightarrow> contact_store \<Rightarrow> contact_store" where
  "contact_step cid (now, Update b) store = snd (updateContact now cid b store)"
| "contact_step cid (now, MarkContacted notes) store = snd (markAsContacted now cid notes store)"
| "contact_step cid (now, Resave) store = snd (resaveContact cid store)"

fun contact_run :: "nat \<Rightarrow> (nat \<times> contact_op) list \<Rightarrow> contact_store \<Rightarrow> contact_store" where
  "contact_run cid [] store = store"
| "contact_run cid (x # xs) store = contact_run cid xs (contact_step cid x store)"

fun sets_priority :: "nat \<times> contact_op \<Rightarrow> bool" where
  "sets_priority (now, Update b) = truthy (b_priority b)"
| "sets_priority (now, MarkContacted notes) = False"
| "sets_priority (now, Resave) = False"


section \<open>Amounts and their display strings\<close>

text \<open>
  \<open>Intl.NumberFormat('en-US', {style: 'currency', currency: 'USD'}).format\<close> and the
  conversion of a number to a string belong to the platform, so the models below take
  them as the parameters \<open>fmt\<close> and \<open>str\<close>, over any type of amounts with a zero. For
  whole amounts the two functions are written out: the sign, the dollar sign, the digits
  in groups of three, and two zero decimals.
\<close>

function digit_string :: "int \<Rightarrow> string" where
  "digit_string n =
     (if n < 10 then [''0123456789'' ! nat n]
      else digit_string (n div 10) @ [''0123456789'' ! nat (n mod 10)])"
  by pat_completeness auto
termination
  by (relation "measure nat") auto

fun group_rev :: "string \<Rightarrow> string" where
  "group_rev (a # b # c # d # ds) = a # b # c # CHR '','' # group_rev (d # ds)"
| "group_rev ds = ds"

definition group_thousands :: "string \<Rightarrow> string" where
  "group_thousands ds = rev (group_rev (rev ds))"

definition usd_currency :: "int \<Rightarrow> string" where
  "usd_currency x =
     (if x < 0 then ''-'' else []) @ ''$'' @ group_thousands (digit_string \<bar>x\<bar>) @ ''.00''"

definition number_to_string :: "int \<Rightarrow> string" where
  "number_to_string x = (if x < 0 then ''-'' else []) @ digit_string \<bar>x\<bar>"


section \<open>The Service model and its read operation\<close>

record 'n service =
  s_title :: string
  s_price :: 'n
  s_priceType :: string
  s_active :: bool
  s_views :: nat

text \<open>The virtual \<open>formattedPrice\<close> of the service schema.\<close>

definition formattedPrice ::
  "('n \<Rightarrow> string) \<Rightarrow> ('n \<Rightarrow> string) \<Rightarrow> ('n::zero) service \<Rightarrow> string" where
  "formattedPrice fmt str s =
     (if s_priceType s = ''free'' then ''Free''
      else if s_priceType s = ''consultation'' then ''Contact for pricing''
      else if s_price s = 0 then ''Contact for pricing''
      else (let formatted = fmt (s_price s) in
            if s_priceType s = ''hourly'' then formatted @ ''/hour''
            else if s_priceType s = ''percentage'' then str (s_price s) @ ''%''
            else formatted))"

text \<open>The response envelope: a success with its payload, or a failure.\<close>

datatype 'a response =
  Success nat 'a string
| Failure nat string string nat

text \<open>
  \<open>getService\<close>. The view counter is incremented on the loaded document before the
  response is written; the save that follows is not awaited, and \<open>saved\<close> tells whether
  it reached the store.
\<close>

definition getService ::
  "nat \<Rightarrow> bool \<Rightarrow> (nat \<Rightarrow> 'n service option) \<Rightarrow> nat
     \<Rightarrow> 'n service response \<times> (nat \<Rightarrow> 'n service option)" where
  "getService now saved store sid =
     (case store sid of
        None \<Rightarrow> (Failure 404 ''NOT_FOUND'' ''Service not found'' now, store)
      | Some service \<Rightarrow>
          if \<not> s_active service
          then (Failure 404 ''NOT_FOUND'' ''Service not found'' now, store)
          else (let service' = service\<lparr>s_views := s_views service + 1\<rparr> in
                (Success 200 service' ''Service retrieved successfully'',
                 if saved then store(sid \<mapsto> service') else store)))"


section \<open>The Property model and its write operations\<close>

record 'n property =
  p_name :: string
  p_description :: string
  p_location :: string
  p_category :: string
  p_type :: string
  p_status :: string
  p_featured :: bool
  p_price :: 'n
  p_priceFormatted :: "string option"

text \<open>The \<open>pre('save')\<close> hook of the property schema; \<open>if (this.price)\<close> is false at zero.\<close>

definition property_pre_save :: "('n \<Rightarrow> string) \<Rightarrow> ('n::zero) property \<Rightarrow> 'n property" where
  "property_pre_save fmt p =
     (if p_price p \<noteq> 0 then p\<lparr>p_priceFormatted := Some (fmt (p_price p))\<rparr> else p)"

text \<open>
  \<open>createProperty\<close> saves a new document made of the request body (taken to pass the
  schema validators), so the hook runs. \<open>updateProperty\<close> writes the fields of the
  request body with \<open>findByIdAndUpdate\<close>, which does not run the hook.
\<close>

definition createProperty ::
  "('n \<Rightarrow> string) \<Rightarrow> nat \<Rightarrow> ('n::zero) property \<Rightarrow> (nat \<Rightarrow> 'n property option)
     \<Rightarrow> 'n property \<times> (nat \<Rightarrow> 'n property option)" where
  "createProperty fmt pid body store =
     (let property = property_pre_save fmt body in (property, store(pid \<mapsto> property)))"

record 'n property_update =
  pu_name :: "string option"
  pu_status :: "string option"
  pu_featured :: "bool option"
  pu_price :: "'n option"
  pu_priceFormatted :: "string option"

definition apply_property_update :: "'n property_update \<Rightarrow> 'n property \<Rightarrow> 'n property" where
  "apply_property_update u p =
     p\<lparr>p_name := (case pu_name u of None \<Rightarrow> p_name p | Some v \<Rightarrow> v),
       p_status := (case pu_status u of None \<Rightarrow> p_status p | Some v \<Rightarrow> v),
       p_featured := (case pu_featured u of None \<Rightarrow> p_featured p | Some v \<Rightarrow> v),
       p_price := (case pu_price u of None \<Rightarrow> p_price p | Some v \<Rightarrow> v),
       p_priceFormatted :=
         (case pu_priceFormatted u of None \<Rightarrow> p_priceFormatted p | Some v \<Rightarrow> Some v)\<rparr>"

definition updateProperty ::
  "nat \<Rightarrow> 'n property_update \<Rightarrow> (nat \<Rightarrow> 'n property option)
     \<Rightarrow> (error + 'n property) \<times> (nat \<Rightarrow> 'n property option)" where
  "updateProperty pid body store =
     (case store pid of
        None \<Rightarrow> (Inl NotFound, store)
      | Some property \<Rightarrow>
          (let property' = apply_property_update body property
           in (Inr property', store(pid \<mapsto> property'))))"


section \<open>The property list operation (controllers/propertyController.js)\<close>

text \<open>The query string of the request: every parameter is a string or absent.\<close>

record request_query =
  rq_type :: "string option"
  rq_category :: "string option"
  rq_location :: "string option"
  rq_minPrice :: "string option"
  rq_maxPrice :: "string option"
  rq_page :: "string option"
  rq_limit :: "string option"
  rq_featured :: "string option"
  rq_status :: "string option"

text \<open>
  The filter handed to the storage layer: an equality on \<open>status\<close>, optional equalities
  on \<open>type\<close>, \<open>category\<close> and \<open>featured\<close>, an optional condition on \<open>price\<close> with the
  operators \<open>$gte\<close> and \<open>$lte\<close>, and an optional \<open>$or\<close> of regular-expression conditions.
\<close>

record 'n price_cond =
  pc_gte :: "'n option"
  pc_lte :: "'n option"

record regex_cond =
  rx_field :: string
  rx_regex :: string
  rx_options :: string

record 'n mongo_query =
  mq_status :: string
  mq_type :: "string option"
  mq_category :: "string option"
  mq_featured :: "bool option"
  mq_price :: "'n price_cond option"
  mq_or :: "regex_cond list option"

text \<open>
  The query object of \<open>getProperties\<close>. \<open>parseFloat\<close> belongs to the platform and is the
  parameter \<open>pf\<close>.
\<close>

definition build_query :: "(string \<Rightarrow> 'n) \<Rightarrow> request_query \<Rightarrow> 'n mongo_query" where
  "build_query pf q =
     \<lparr>mq_status = (case rq_status q of None \<Rightarrow> ''Available'' | Some s \<Rightarrow> s),
      mq_type = (if truthy (rq_type q) then rq_type q else None),
      mq_category = (if truthy (rq_category q) then rq_category q else None),
      mq_featured = (case rq_featured q of None \<Rightarrow> None | Some f \<Rightarrow> Some (f = ''true'')),
      mq_price =
        (if truthy (rq_minPrice q) \<or> truthy (rq_maxPrice q)
         then Some \<lparr>pc_gte = (if truthy (rq_minPrice q) then Some (pf (the (rq_minPrice q))) else None),
                    pc_lte = (if truthy (rq_maxPrice q) then Some (pf (the (rq_maxPrice q))) else None)\<rparr>
         else None),
      mq_or =
        (if truthy (rq_location q)
         then Some [\<lparr>rx_field = ''location'', rx_regex = the (rq_location q), rx_options = ''i''\<rparr>,
                    \<lparr>rx_field = ''name'', rx_regex = the (rq_location q), rx_options = ''i''\<rparr>,
                    \<lparr>rx_field = ''description'', rx_regex = the (rq_location q), rx_options = ''i''\<rparr>]
         else None)\<rparr>"

text \<open>
  What \<open>validatePropertyQuery\<close> (middleware/validation.js) lets through to the controller,
  for the parameters the filter is built from: \<open>type\<close> and \<open>category\<close> are absent or one
  of the listed values, \<open>minPrice\<close> and \<open>maxPrice\<close> are absent or numeric (an optional
  sign, then digits with an optional decimal point before the last run of digits), and
  \<open>location\<close>, trimmed, is absent or of 1 to 200 characters. The bound
  \<open>isFloat({min: 0})\<close> on the two prices and the checks of \<open>page\<close> and \<open>limit\<close> only
  narrow what is let through, and are left out.
\<close>

fun optional :: "(string \<Rightarrow> bool) \<Rightarrow> string option \<Rightarrow> bool" where
  "optional check None = True"
| "optional check (Some s) = check s"

definition isIn :: "string list \<Rightarrow> string \<Rightarrow> bool" where
  "isIn values s = (s \<in> set values)"

definition is_digit :: "char \<Rightarrow> bool" where
  "is_digit c = (c \<in> set ''0123456789'')"

definition isNumeric :: "string \<Rightarrow> bool" where
  "isNumeric s =
     (let u = (case s of [] \<Rightarrow> []
               | c # r \<Rightarrow> if c = CHR ''+'' \<or> c = CHR ''-'' then r else s);
          a = takeWhile is_digit u;
          r = dropWhile is_digit u
      in (case r of [] \<Rightarrow> a \<noteq> []
          | c # b \<Rightarrow> c = CHR ''.'' \<and> b \<noteq> [] \<and> list_all is_digit b))"

definition isLength :: "nat \<Rightarrow> nat \<Rightarrow> string \<Rightarrow> bool" where
  "isLength lo hi s = (lo \<le> length s \<and> length s \<le> hi)"

definition validatePropertyQuery :: "request_query \<Rightarrow> bool" where
  "validatePropertyQuery q =
     (optional (isIn [''Buy'', ''Sell'', ''Lease Out'']) (rq_type q)
      \<and> optional (isIn [''Residential'', ''Commercial'']) (rq_category q)
      \<and> optional isNumeric (rq_minPrice q)
      \<and> optional isNumeric (rq_maxPrice q)
      \<and> optional (isLength 1 200) (rq_location q))"

text \<open>
  The reference builder, written from the specification of \<open>buildFilter\<close>: the status is
  the supplied one or \<open>Available\<close>; category, type and featured are in the predicate
  exactly when supplied, featured being true exactly for the string \<open>true\<close>; the price
  bounds that are supplied form one range condition; a supplied location becomes the
  three-field match.
\<close>

definition buildFilter_spec :: "(string \<Rightarrow> 'n) \<Rightarrow> request_query \<Rightarrow> 'n mongo_query" where
  "buildFilter_spec pf q =
     \<lparr>mq_status = (case rq_status q of None \<Rightarrow> ''Available'' | Some s \<Rightarrow> s),
      mq_type = rq_type q,
      mq_category = rq_category q,
      mq_featured = map_option (\<lambda>f. f = ''true'') (rq_featured q),
      mq_price =
        (if rq_minPrice q = None \<and> rq_maxPrice q = None then None
         else Some \<lparr>pc_gte = map_option pf (rq_minPrice q),
                    pc_lte = map_option pf (rq_maxPrice q)\<rparr>),
      mq_or =
        map_option
          (\<lambda>s. map (\<lambda>f. \<lparr>rx_field = f, rx_regex = s, rx_options = ''i''\<rparr>)
                   [''location'', ''name'', ''description''])
          (rq_location q)\<rparr>"

text \<open>The meaning of the price condition: both operators are inclusive.\<close>

definition price_cond_matches :: "('n::ord) price_cond \<Rightarrow> 'n \<Rightarrow> bool" where
  "price_cond_matches pc x =
     ((case pc_gte pc of None \<Rightarrow> True | Some lo \<Rightarrow> lo \<le> x)
      \<and> (case pc_lte pc of None \<Rightarrow> True | Some hi \<Rightarrow> x \<le> hi))"


subsection \<open>Regular-expression conditions\<close>

text \<open>
  The storage layer reads the \<open>$regex\<close> string as a regular expression and searches the
  field for a match anywhere. The model covers the patterns made of ordinary characters
  and the dot, with no option or with the option \<open>i\<close>: an ordinary character stands for
  itself (for either case of it under \<open>i\<close>), the dot for any character but a line feed.
  A pattern with another metacharacter is outside the model (\<open>None\<close>).
\<close>

datatype rx_atom = Lit char | AnyChar

definition other_metachars :: string where
  "other_metachars = [CHR 0x5C] @ ''^$[]|()?*+{}''"

fun parse_pattern :: "string \<Rightarrow> rx_atom list option" where
  "parse_pattern [] = Some []"
| "parse_pattern (c # cs) =
     (if c = CHR ''.'' then map_option ((#) AnyChar) (parse_pattern cs)
      else if c \<in> set other_metachars then None
      else map_option ((#) (Lit c)) (parse_pattern cs))"

fun atom_matches :: "bool \<Rightarrow> rx_atom \<Rightarrow> char \<Rightarrow> bool" where
  "atom_matches ci AnyChar c = (c \<noteq> CHR 0x0A)"
| "atom_matches ci (Lit l) c = (if ci then toLowerCase_char l = toLowerCase_char c else l = c)"

fun match_here :: "bool \<Rightarrow> rx_atom list \<Rightarrow> string \<Rightarrow> bool" where
  "match_here ci [] t = True"
| "match_here ci (a # as) [] = False"
| "match_here ci (a # as) (c # cs) = (atom_matches ci a c \<and> match_here ci as cs)"

fun regex_search :: "bool \<Rightarrow> rx_atom list \<Rightarrow> string \<Rightarrow> bool" where
  "regex_search ci as [] = match_here ci as []"
| "regex_search ci as (c # cs) = (match_here ci as (c # cs) \<or> regex_search ci as cs)"

definition regex_test :: "string \<Rightarrow> string \<Rightarrow> string \<Rightarrow> bool option" where
  "regex_test pattern opts t =
     (if opts = ''i'' \<or> opts = []
      then map_option (\<lambda>as. regex_search (opts = ''i'') as t) (parse_pattern pattern)
      else None)"

definition string_field :: "string \<Rightarrow> 'n property \<Rightarrow> string option" where
  "string_field f d =
     (if f = ''location'' then Some (p_location d)
      else if f = ''name'' then Some (p_name d)
      else if f = ''description'' then Some (p_description d)
      else if f = ''category'' then Some (p_category d)
      else if f = ''type'' then Some (p_type d)
      else if f = ''status'' then Some (p_status d)
      else None)"

definition regex_cond_matches :: "regex_cond \<Rightarrow> 'n property \<Rightarrow> bool option" where
  "regex_cond_matches r d =
     (case string_field (rx_field r) d of
        None \<Rightarrow> None
      | Some t \<Rightarrow> regex_test (rx_regex r) (rx_options r) t)"

text \<open>\<open>$or\<close>: some disjunct matches.\<close>

fun or_matches :: "regex_cond list \<Rightarrow> 'n property \<Rightarrow> bool option" where
  "or_matches [] d = Some False"
| "or_matches (r # rs) d =
     (case regex_cond_matches r d of
        None \<Rightarrow> None
      | Some b \<Rightarrow> map_option (\<lambda>b'. b \<or> b') (or_matches rs d))"

text \<open>A plain, case-insensitive contains-match of \<open>s\<close> in \<open>t\<close>.\<close>

definition contains_ci :: "string \<Rightarrow> string \<Rightarrow> bool" where
  "contains_ci s t = str_includes (toLowerCase t) (toLowerCase s)"

definition plain_text :: "string \<Rightarrow> bool" where
  "plain_text s = list_all (\<lambda>c. c \<noteq> CHR ''.'' \<and> c \<notin> set other_metachars) s"


subsection \<open>Pagination\<close>

text \<open>
  \<open>parseInt\<close>: leading white space, an optional sign, an optional \<open>0x\<close> prefix that
  selects base 16, then the longest run of digits; \<open>None\<close> is \<open>NaN\<close>.
\<close>

definition digit_value :: "char \<Rightarrow> nat option" where
  "digit_value c =
     map_of (zip ''0123456789abcdefABCDEF''
                 [0, 1, 2, 3, 4, 5, 6, 7, 8, 9, 10, 11, 12, 13, 14, 15, 10, 11, 12, 13, 14, 15]) c"

definition is_radix_digit :: "nat \<Rightarrow> char \<Rightarrow> bool" where
  "is_radix_digit radix c = (case digit_value c of None \<Rightarrow> False | Some v \<Rightarrow> v < radix)"

definition digits_value :: "nat \<Rightarrow> string \<Rightarrow> int" where
  "digits_value radix ds = foldl (\<lambda>a c. a * int radix + int (the (digit_value c))) 0 ds"

definition parseInt :: "string \<Rightarrow> int option" where
  "parseInt s =
     (let t = dropWhile is_space s;
          neg = (case t of [] \<Rightarrow> False | c # r \<Rightarrow> c = CHR ''-'');
          u = (case t of [] \<Rightarrow> []
               | c # r \<Rightarrow> if c = CHR ''-'' \<or> c = CHR ''+'' then r else t);
          hex = (prefix ''0x'' u \<or> prefix ''0X'' u);
          radix = (if hex then 16 else 10);
          ds = takeWhile (is_radix_digit radix) (if hex then drop 2 u else u)
      in if ds = [] then None
         else Some ((if neg then - 1 else 1) * digits_value radix ds))"

record pagination =
  currentPage :: int
  totalPages :: int
  totalItems :: int
  itemsPerPage :: int
  hasNextPage :: bool
  hasPreviousPage :: bool

record 'a page_result =
  properties :: "'a list"
  page_info :: pagination

text \<open>\<open>Math.ceil(totalItems / limitNum)\<close>, on the exact quotient.\<close>

definition ceil_div :: "int \<Rightarrow> int \<Rightarrow> int" where
  "ceil_div a b = \<lceil>(of_int a :: rat) / of_int b\<rceil>"

text \<open>
  The page of \<open>getProperties\<close>. \<open>results\<close> are the documents that match the query, in the
  order of the sort; the page is cut out of them with \<open>skip\<close> and \<open>limit\<close>, and their
  number is the count. The model covers a page number and a limit of at least 1 (what
  the validator of the route lets through); anything else is \<open>None\<close>.
\<close>

definition getProperties_page :: "request_query \<Rightarrow> 'a list \<Rightarrow> 'a page_result option" where
  "getProperties_page q results =
     (case (case rq_page q of None \<Rightarrow> Some 1 | Some p \<Rightarrow> parseInt p,
            case rq_limit q of None \<Rightarrow> Some 10 | Some l \<Rightarrow> parseInt l) of
        (Some pageNum, Some limitNum) \<Rightarrow>
          if pageNum < 1 \<or> limitNum < 1 then None
          else
            (let skip = (pageNum - 1) * limitNum;
                 totalItems = int (length results);
                 totalPages = ceil_div totalItems limitNum
             in Some \<lparr>properties = take (nat limitNum) (drop (nat skip) results),
                      page_info =
                        \<lparr>currentPage = pageNum,
                         totalPages = totalPages,
                         totalItems = totalItems,
                         itemsPerPage = limitNum,
                         hasNextPage = (pageNum < totalPages),
                         hasPreviousPage = (pageNum > 1)\<rparr>\<rparr>)
      | _ \<Rightarrow> None)"


section \<open>Example data\<close>

text \<open>
  Requests and documents used to run the operations: two inquiries, a stored contact
  whose priority was set by hand, the listing and services of the seed data, and
  requests to the property list.
\<close>

definition urgent_inquiry :: contact_data where
  "urgent_inquiry =
     \<lparr>d_message = ''This is urgent, I need info about financing asap'',
      d_subject = None, d_priority = Some ''low'', d_tags = [''vip'', ''financing'']\<rparr>"

definition urgent_inquiry_created :: contact where
  "urgent_inquiry_created =
     \<lparr>c_message = ''This is urgent, I need info about financing asap'',
      c_subject = None, c_status = ''pending'', c_priority = ''urgent'',
      c_notes = None, c_assignedTo = None, c_responseDate = None,
      c_tags = [''vip'', ''financing''], c_isNew = False\<rparr>"

definition loud_tags_inquiry :: contact_data where
  "loud_tags_inquiry =
     \<lparr>d_message = ''Please tell me about financing options'', d_subject = Some ''Loans'',
      d_priority = None, d_tags = [''VIP'', ''Financing'']\<rparr>"

definition loud_tags_created :: contact where
  "loud_tags_created =
     \<lparr>c_message = ''Please tell me about financing options'', c_subject = Some ''Loans'',
      c_status = ''pending'', c_priority = ''medium'',
      c_notes = None, c_assignedTo = None, c_responseDate = None,
      c_tags = [''vip'', ''financing''], c_isNew = False\<rparr>"

definition split_inquiry :: contact_data where
  "split_inquiry =
     \<lparr>d_message = ''please call me back urg'', d_subject = Some ''ent matter'',
      d_priority = None, d_tags = []\<rparr>"

definition stored_contact :: contact where
  "stored_contact =
     \<lparr>c_message = ''This is urgent, please tell me the price'',
      c_subject = None, c_status = ''pending'', c_priority = ''low'',
      c_notes = None, c_assignedTo = None, c_responseDate = None,
      c_tags = [], c_isNew = False\<rparr>"

definition one_contact_store :: contact_store where
  "one_contact_store = (\<lambda>cid. if cid = 1 then Some stored_contact else None)"

definition set_status :: "string \<Rightarrow> update_body" where
  "set_status s = \<lparr>b_status = Some s, b_notes = None, b_assignedTo = None, b_priority = None\<rparr>"

text \<open>\<open>parseFloat\<close> on a run of decimal digits.\<close>

definition parseFloat_whole :: "string \<Rightarrow> int" where
  "parseFloat_whole s = digits_value 10 s"

definition villa_query :: request_query where
  "villa_query =
     \<lparr>rq_type = None, rq_category = Some ''Residential'', rq_location = Some ''beverly'',
      rq_minPrice = Some ''1000000'', rq_maxPrice = Some ''5000000'',
      rq_page = Some ''2'', rq_limit = Some ''2'', rq_featured = Some ''yes'',
      rq_status = None\<rparr>"

definition dot_query :: request_query where
  "dot_query = villa_query\<lparr>rq_location := Some ''h.l''\<rparr>"

definition unpriced_query :: request_query where
  "unpriced_query = villa_query\<lparr>rq_minPrice := None, rq_maxPrice := None\<rparr>"

definition far_page_query :: request_query where
  "far_page_query = villa_query\<lparr>rq_page := Some ''3'', rq_limit := Some ''10''\<rparr>"

definition villa :: "int property" where
  "villa =
     \<lparr>p_name = ''Luxury Villa'', p_description = ''A villa with a pool'',
      p_location = ''Beverly Hills, CA'', p_category = ''Residential'', p_type = ''Buy'',
      p_status = ''Available'', p_featured = True, p_price = 4500000,
      p_priceFormatted = None\<rparr>"

definition zero_price_listing :: "int property" where
  "zero_price_listing =
     \<lparr>p_name = ''Community Garden Plot'', p_description = ''A plot given away for free'',
      p_location = ''Springfield'', p_category = ''Residential'', p_type = ''Sell'',
      p_status = ''Available'', p_featured = False, p_price = 0,
      p_priceFormatted = None\<rparr>"

definition hourly_service :: "int service" where
  "hourly_service =
     \<lparr>s_title = ''Investment Consulting'', s_price = 200, s_priceType = ''hourly'',
      s_active = True, s_views = 0\<rparr>"

definition percentage_service :: "int service" where
  "percentage_service =
     \<lparr>s_title = ''Property Selling'', s_price = 6, s_priceType = ''percentage'',
      s_active = False, s_views = 7\<rparr>"

definition service_store :: "nat \<Rightarrow> int service option" where
  "service_store = (\<lambda>sid. if sid = 1 then Some hourly_service
                           else if sid = 2 then Some percentage_service else None)"

section \<open>Properties of the contact classification\<close>

lemma str_includes_iff: "str_includes t k \<longleftrightarrow> (\<exists>p s. t = p @ k @ s)"
proof (induction t)
  case Nil
  then show ?case by auto
next
  case (Cons c cs)
  show ?case
  proof
    assume "str_includes (c # cs) k"
    then consider "prefix k (c # cs)" | "str_includes cs k" by auto
    then show "\<exists>p s. c # cs = p @ k @ s"
    proof cases
      case 1
      then obtain s where "c # cs = k @ s" by (auto simp: prefix_def)
      then have "c # cs = [] @ k @ s" by simp
      then show ?thesis by blast
    next
      case 2
      with Cons.IH obtain p s where "cs = p @ k @ s" by blast
      then have "c # cs = (c # p) @ k @ s" by simp
      then show ?thesis by blast
    qed
  next
    assume "\<exists>p s. c # cs = p @ k @ s"
    then obtain p s where ps: "c # cs = p @ k @ s" by blast
    show "str_includes (c # cs) k"
    proof (cases p)
      case Nil
      with ps have "prefix k (c # cs)" by (simp add: prefix_def)
      then show ?thesis by simp
    next
      case (Cons a p')
      with ps have "cs = p' @ k @ s" by simp
      with Cons.IH have "str_includes cs k" by blast
      then show ?thesis by simp
    qed
  qed
qed

lemma prefix_before_stop: "x \<notin> set k \<Longrightarrow> prefix k (a @ x # b) = prefix k a"
proof (induction a arbitrary: k)
  case Nil
  then show ?case by (cases k) auto
next
  case (Cons c a)
  then show ?case by (cases k) auto
qed

lemma includes_split:
  assumes "x \<notin> set k"
  shows "str_includes (a @ x # b) k = (str_includes a k \<or> str_includes b k)"
proof (induction a)
  case Nil
  have "prefix k (x # b) = (k = [])" using assms by (cases k) auto
  then show ?case by simp
next
  case (Cons c a)
  have "prefix k ((c # a) @ x # b) = prefix k (c # a)"
    by (rule prefix_before_stop [OF assms])
  with Cons show ?case by auto
qed

lemma includes_dropWhile:
  assumes "k \<noteq> []" and "\<forall>c \<in> set k. \<not> P c"
  shows "str_includes (dropWhile P a) k = str_includes a k"
proof (induction a)
  case Nil
  then show ?case by simp
next
  case (Cons c a)
  show ?case
  proof (cases "P c")
    case True
    have "\<not> prefix k (c # a)" using assms True by (cases k) auto
    with True Cons show ?thesis by simp
  next
    case False
    then show ?thesis by simp
  qed
qed

lemma includes_rev: "str_includes (rev a) (rev k) = str_includes a k"
proof -
  have d: "(\<exists>p s. rev a = p @ rev k @ s)" if "\<exists>p s. a = p @ k @ s" for a k :: "'a list"
  proof -
    from that obtain p s where "a = p @ k @ s" by blast
    then have "rev a = rev s @ rev k @ rev p" by simp
    then show ?thesis by blast
  qed
  have "(\<exists>p s. rev a = p @ rev k @ s) = (\<exists>p s. a = p @ k @ s)"
    using d [of a k] d [of "rev a" "rev k"] by auto
  then show ?thesis by (simp only: str_includes_iff)
qed

lemma includes_trim:
  assumes "k \<noteq> []" and "\<forall>c \<in> set k. \<not> is_space c"
  shows "str_includes (trim a) k = str_includes a k"
proof -
  have r: "rev k \<noteq> []" "\<forall>c \<in> set (rev k). \<not> is_space c" using assms by simp_all
  have "str_includes (trim a) k
          = str_includes (rev (dropWhile is_space (rev (dropWhile is_space a)))) (rev (rev k))"
    by (simp add: trim_def)
  also have "\<dots> = str_includes (dropWhile is_space (rev (dropWhile is_space a))) (rev k)"
    by (rule includes_rev)
  also have "\<dots> = str_includes (rev (dropWhile is_space a)) (rev k)"
    by (rule includes_dropWhile [OF r])
  also have "\<dots> = str_includes (dropWhile is_space a) k"
    by (rule includes_rev)
  also have "\<dots> = str_includes a k"
    by (rule includes_dropWhile [OF assms])
  finally show ?thesis .
qed

lemma toLowerCase_char_space: "is_space (toLowerCase_char c) = is_space c"
proof (cases "map_of (zip upper_letters lower_letters) c")
  case None
  then show ?thesis by (simp add: toLowerCase_char_def)
next
  case (Some l)
  then have "(c, l) \<in> set (zip upper_letters lower_letters)" by (rule map_of_SomeD)
  then have "c \<in> set upper_letters" and "l \<in> set lower_letters"
    by (auto dest: set_zip_leftD set_zip_rightD)
  then have "\<not> is_space c" and "\<not> is_space l"
    by (auto simp: upper_letters_def lower_letters_def is_space_def)
  with Some show ?thesis by (simp add: toLowerCase_char_def)
qed

lemma toLowerCase_trim: "toLowerCase (trim s) = trim (toLowerCase s)"
proof -
  have c: "is_space \<circ> toLowerCase_char = is_space"
    by (rule ext) (simp add: toLowerCase_char_space)
  show ?thesis
    by (simp add: toLowerCase_def trim_def dropWhile_map rev_map c)
qed

lemma includes_lower_trim:
  assumes "k \<noteq> []" and "\<forall>c \<in> set k. \<not> is_space c"
  shows "str_includes (toLowerCase (trim a)) k = str_includes (toLowerCase a) k"
  by (simp only: toLowerCase_trim includes_trim [OF assms])

lemma set_add_all_set: "set (set_add_all seen xs) = set seen \<union> set xs"
  by (induction xs arbitrary: seen) auto

lemma set_add_all_distinct: "distinct seen \<Longrightarrow> distinct (set_add_all seen xs)"
  by (induction xs arbitrary: seen) auto

lemma set_add_all_append: "set_add_all seen (xs @ ys) = set_add_all (set_add_all seen xs) ys"
  by (induction xs arbitrary: seen) auto

lemma set_add_all_known: "set xs \<subseteq> set seen \<Longrightarrow> set_add_all seen xs = seen"
  by (induction xs arbitrary: seen) auto

lemma set_add_all_fresh: "distinct (seen @ xs) \<Longrightarrow> set_add_all seen xs = seen @ xs"
  by (induction xs arbitrary: seen) auto

lemma spread_new_Set_idem:
  "spread_new_Set (spread_new_Set (xs @ ys) @ ys) = spread_new_Set (xs @ ys)"
proof -
  have d: "distinct (spread_new_Set (xs @ ys))"
    by (simp add: spread_new_Set_def set_add_all_distinct)
  have "spread_new_Set (spread_new_Set (xs @ ys) @ ys)
        = set_add_all (set_add_all [] (spread_new_Set (xs @ ys))) ys"
    by (simp add: spread_new_Set_def set_add_all_append)
  also have "set_add_all [] (spread_new_Set (xs @ ys)) = spread_new_Set (xs @ ys)"
    using set_add_all_fresh [of "[]" "spread_new_Set (xs @ ys)"] d by simp
  also have "set_add_all (spread_new_Set (xs @ ys)) ys = spread_new_Set (xs @ ys)"
    by (rule set_add_all_known) (simp add: spread_new_Set_def set_add_all_set)
  finally show ?thesis .
qed

lemma list_ex_urgent:
  "list_ex (str_includes t) urgentKeywords
     = (str_includes t ''urgent'' \<or> str_includes t ''asap''
        \<or> str_includes t ''immediately'' \<or> str_includes t ''emergency'')"
  by (simp add: urgentKeywords_def)

lemma list_ex_high:
  "list_ex (str_includes t) highKeywords
     = (str_includes t ''important'' \<or> str_includes t ''priority''
        \<or> str_includes t ''soon'' \<or> str_includes t ''quickly'')"
  by (simp add: highKeywords_def)

lemma messageText_new:
  "messageText (new_Contact d)
     = toLowerCase (trim (d_message d)) @ '' ''
       @ toLowerCase (trim (case d_subject d of None \<Rightarrow> [] | Some s \<Rightarrow> s))"
proof -
  have sp: "toLowerCase_char (CHR '' '') = CHR '' ''"
    by (simp add: toLowerCase_char_def upper_letters_def lower_letters_def)
  show ?thesis
  proof (cases "d_subject d")
    case None
    with sp show ?thesis
      by (simp add: messageText_def new_Contact_def toLowerCase_def trim_def)
  next
    case (Some s)
    with sp show ?thesis
      by (cases "trim s = []") (simp_all add: messageText_def new_Contact_def toLowerCase_def)
  qed
qed

text \<open>
  The trimming of the message and of the subject does not change which of the keywords
  occur: a word without white space occurs in the text the hook builds exactly when it
  occurs in the lower-cased message, space and subject as the caller gave them.
\<close>

lemma text_includes:
  assumes "k \<noteq> []" and "\<forall>c \<in> set k. \<not> is_space c"
  shows "str_includes (messageText (new_Contact d)) k
           = str_includes (toLowerCase (d_message d @ '' '' @
                (case d_subject d of None \<Rightarrow> [] | Some s \<Rightarrow> s))) k"
proof -
  have sp: "CHR '' '' \<notin> set k" using assms(2) by (auto simp: is_space_def)
  have l: "toLowerCase (d_message d @ '' '' @ (case d_subject d of None \<Rightarrow> [] | Some s \<Rightarrow> s))
             = toLowerCase (d_message d) @ CHR '' '' #
               toLowerCase (case d_subject d of None \<Rightarrow> [] | Some s \<Rightarrow> s)"
    by (simp add: toLowerCase_def toLowerCase_char_def upper_letters_def lower_letters_def)
  have "str_includes (messageText (new_Contact d)) k
          = (str_includes (toLowerCase (trim (d_message d))) k
             \<or> str_includes (toLowerCase (trim (case d_subject d of None \<Rightarrow> [] | Some s \<Rightarrow> s))) k)"
    using includes_split [OF sp] by (simp add: messageText_new)
  also have "\<dots> = (str_includes (toLowerCase (d_message d)) k
             \<or> str_includes (toLowerCase (case d_subject d of None \<Rightarrow> [] | Some s \<Rightarrow> s)) k)"
    by (simp only: includes_lower_trim [OF assms])
  also have "\<dots> = str_includes (toLowerCase (d_message d @ '' '' @
                (case d_subject d of None \<Rightarrow> [] | Some s \<Rightarrow> s))) k"
    unfolding l using includes_split [OF sp] by simp
  finally show ?thesis .
qed

lemma keyword_plain:
  assumes "k \<in> set (urgentKeywords @ highKeywords @
             [''viewing'', ''visit'', ''price'', ''cost'', ''mortgage'', ''financing'',
              ''investment''])"
  shows "k \<noteq> []" and "\<forall>c \<in> set k. \<not> is_space c"
  using assms by (auto simp: urgentKeywords_def highKeywords_def is_space_def)

lemma list_ex_text:
  assumes "set ks \<subseteq> set (urgentKeywords @ highKeywords)"
  shows "list_ex (str_includes (messageText (new_Contact d))) ks
           = list_ex (str_includes (toLowerCase (d_message d @ '' '' @
                (case d_subject d of None \<Rightarrow> [] | Some s \<Rightarrow> s)))) ks"
proof (rule list_ex_cong [OF refl])
  fix k assume "k \<in> set ks"
  with assms have m: "k \<in> set (urgentKeywords @ highKeywords @
             [''viewing'', ''visit'', ''price'', ''cost'', ''mortgage'', ''financing'',
              ''investment''])"
    by auto
  show "str_includes (messageText (new_Contact d)) k
           = str_includes (toLowerCase (d_message d @ '' '' @
                (case d_subject d of None \<Rightarrow> [] | Some s \<Rightarrow> s))) k"
    by (rule text_includes [OF keyword_plain [OF m]])
qed

lemma auto_tags_text:
  "auto_tags (messageText (new_Contact d))
     = auto_tags (toLowerCase (d_message d @ '' '' @
                (case d_subject d of None \<Rightarrow> [] | Some s \<Rightarrow> s)))"
proof -
  have k: "str_includes (messageText (new_Contact d)) k
           = str_includes (toLowerCase (d_message d @ '' '' @
                (case d_subject d of None \<Rightarrow> [] | Some s \<Rightarrow> s))) k"
    if "k \<in> set [''viewing'', ''visit'', ''price'', ''cost'', ''mortgage'', ''financing'',
              ''investment'']" for k
  proof -
    from that have m: "k \<in> set (urgentKeywords @ highKeywords @
             [''viewing'', ''visit'', ''price'', ''cost'', ''mortgage'', ''financing'',
              ''investment''])"
      by auto
    show ?thesis by (rule text_includes [OF keyword_plain [OF m]])
  qed
  have "str_includes (messageText (new_Contact d)) ''viewing''
          = str_includes (toLowerCase (d_message d @ '' '' @
                (case d_subject d of None \<Rightarrow> [] | Some s \<Rightarrow> s))) ''viewing''"
    "str_includes (messageText (new_Contact d)) ''visit''
          = str_includes (toLowerCase (d_message d @ '' '' @
                (case d_subject d of None \<Rightarrow> [] | Some s \<Rightarrow> s))) ''visit''"
    "str_includes (messageText (new_Contact d)) ''price''
          = str_includes (toLowerCase (d_message d @ '' '' @
                (case d_subject d of None \<Rightarrow> [] | Some s \<Rightarrow> s))) ''price''"
    "str_includes (messageText (new_Contact d)) ''cost''
          = str_includes (toLowerCase (d_message d @ '' '' @
                (case d_subject d of None \<Rightarrow> [] | Some s \<Rightarrow> s))) ''cost''"
    "str_includes (messageText (new_Contact d)) ''mortgage''
          = str_includes (toLowerCase (d_message d @ '' '' @
                (case d_subject d of None \<Rightarrow> [] | Some s \<Rightarrow> s))) ''mortgage''"
    "str_includes (messageText (new_Contact d)) ''financing''
          = str_includes (toLowerCase (d_message d @ '' '' @
                (case d_subject d of None \<Rightarrow> [] | Some s \<Rightarrow> s))) ''financing''"
    "str_includes (messageText (new_Contact d)) ''investment''
          = str_includes (toLowerCase (d_message d @ '' '' @
                (case d_subject d of None \<Rightarrow> [] | Some s \<Rightarrow> s))) ''investment''"
    by (rule k, simp)+
  then show ?thesis by (simp only: auto_tags_def)
qed

lemma Contact_create_Inr:
  "Contact_create d = Inr c \<Longrightarrow> c = (contact_pre_save (new_Contact d))\<lparr>c_isNew := False\<rparr>"
  by (auto simp: Contact_create_def contact_save_def split: if_splits)

lemma pre_save_new:
  "c_isNew c \<Longrightarrow> contact_pre_save c =
     c\<lparr>c_priority :=
         (if list_ex (str_includes (messageText c)) urgentKeywords then ''urgent''
          else if list_ex (str_includes (messageText c)) highKeywords then ''high''
          else c_priority c),
       c_tags := spread_new_Set (c_tags c @ auto_tags (messageText c))\<rparr>"
  by (simp add: contact_pre_save_def Let_def)

lemma pre_save_priority:
  "c_isNew c \<Longrightarrow> c_priority (contact_pre_save c)
     = (if list_ex (str_includes (messageText c)) urgentKeywords then ''urgent''
        else if list_ex (str_includes (messageText c)) highKeywords then ''high''
        else c_priority c)"
  by (simp add: pre_save_new)

lemma pre_save_tags:
  "c_isNew c \<Longrightarrow> c_tags (contact_pre_save c)
     = spread_new_Set (c_tags c @ auto_tags (messageText c))"
  by (simp add: pre_save_new)

lemma pre_save_idem: "contact_pre_save (contact_pre_save c) = contact_pre_save c"
proof (cases "c_isNew c")
  case False
  then show ?thesis by (simp add: contact_pre_save_def)
next
  case True
  define c1 where "c1 = contact_pre_save c"
  have n: "c_isNew c1"
    unfolding c1_def using True by (simp add: pre_save_new [OF True])
  have t: "messageText c1 = messageText c"
    unfolding c1_def using True by (simp add: pre_save_new [OF True] messageText_def)
  have g: "c_tags c1 = spread_new_Set (c_tags c @ auto_tags (messageText c))"
    unfolding c1_def by (simp add: pre_save_new [OF True])
  have p: "c_priority c1 =
         (if list_ex (str_includes (messageText c)) urgentKeywords then ''urgent''
          else if list_ex (str_includes (messageText c)) highKeywords then ''high''
          else c_priority c)"
    unfolding c1_def by (simp add: pre_save_new [OF True])
  have "contact_pre_save c1 = c1"
    by (simp add: pre_save_new [OF n] t g p spread_new_Set_idem)
  then show ?thesis by (simp add: c1_def)
qed

lemma auto_tags_set:
  "set (auto_tags t) =
     {tag. tag = ''viewing-request'' \<and> (str_includes t ''viewing'' \<or> str_includes t ''visit'')
         \<or> tag = ''pricing-inquiry'' \<and> (str_includes t ''price'' \<or> str_includes t ''cost'')
         \<or> tag = ''financing'' \<and> (str_includes t ''mortgage'' \<or> str_includes t ''financing'')
         \<or> tag = ''investment'' \<and> str_includes t ''investment''}"
  unfolding auto_tags_def by (simp only: set_append) auto

text \<open>
  Claim C4, as the code has it. The text that is searched is the lower-cased message,
  one space, and the subject (nothing when the subject is absent or empty); the space
  keeps a keyword from being found across the end of the message and the start of the
  subject. For every contact that \<open>Contact.create\<close> persists: if the text contains one of
  \<open>urgent\<close>, \<open>asap\<close>, \<open>immediately\<close>, \<open>emergency\<close> the priority is \<open>urgent\<close>, whatever the
  caller supplied; otherwise, if it contains one of \<open>important\<close>, \<open>priority\<close>, \<open>soon\<close>,
  \<open>quickly\<close> the priority is \<open>high\<close>; otherwise it is the caller's value, or \<open>medium\<close>
  when the caller gave none.
\<close>

theorem priority_rule:
  assumes "Contact_create d = Inr c"
  shows "c_priority c =
    (let t = toLowerCase (d_message d @ '' '' @ (case d_subject d of None \<Rightarrow> [] | Some s \<Rightarrow> s)) in
     if str_includes t ''urgent'' \<or> str_includes t ''asap''
        \<or> str_includes t ''immediately'' \<or> str_includes t ''emergency'' then ''urgent''
     else if str_includes t ''important'' \<or> str_includes t ''priority''
        \<or> str_includes t ''soon'' \<or> str_includes t ''quickly'' then ''high''
     else (case d_priority d of None \<Rightarrow> ''medium'' | Some p \<Rightarrow> p))"
proof -
  have n: "c_isNew (new_Contact d)" by (simp add: new_Contact_def)
  have p: "c_priority (new_Contact d) = (case d_priority d of None \<Rightarrow> ''medium'' | Some p \<Rightarrow> p)"
    by (simp add: new_Contact_def)
  have "c_priority c = c_priority (contact_pre_save (new_Contact d))"
    using Contact_create_Inr [OF assms] by simp
  moreover have "list_ex (str_includes (messageText (new_Contact d))) urgentKeywords
      = list_ex (str_includes (toLowerCase (d_message d @ '' '' @
                (case d_subject d of None \<Rightarrow> [] | Some s \<Rightarrow> s)))) urgentKeywords"
    by (rule list_ex_text) simp
  moreover have "list_ex (str_includes (messageText (new_Contact d))) highKeywords
      = list_ex (str_includes (toLowerCase (d_message d @ '' '' @
                (case d_subject d of None \<Rightarrow> [] | Some s \<Rightarrow> s)))) highKeywords"
    by (rule list_ex_text) simp
  ultimately show ?thesis
    by (simp only: pre_save_priority [OF n] list_ex_urgent list_ex_high p Let_def)
qed

text \<open>
  The inquiry of the specification, created with the priority \<open>low\<close>, is persisted as
  \<open>urgent\<close>.
\<close>

theorem priority_rule_witness:
  "Contact_create urgent_inquiry = Inr urgent_inquiry_created
   \<and> c_priority urgent_inquiry_created = ''urgent''"
proof -
  have h: "Contact_create urgent_inquiry = Inr urgent_inquiry_created" by code_simp
  have e: "(let t = toLowerCase (d_message urgent_inquiry @ '' '' @
                       (case d_subject urgent_inquiry of None \<Rightarrow> [] | Some s \<Rightarrow> s)) in
     if str_includes t ''urgent'' \<or> str_includes t ''asap''
        \<or> str_includes t ''immediately'' \<or> str_includes t ''emergency'' then ''urgent''
     else if str_includes t ''important'' \<or> str_includes t ''priority''
        \<or> str_includes t ''soon'' \<or> str_includes t ''quickly'' then ''high''
     else (case d_priority urgent_inquiry of None \<Rightarrow> ''medium'' | Some p \<Rightarrow> p)) = ''urgent''"
    by code_simp
  have "c_priority urgent_inquiry_created = ''urgent''"
    using priority_rule [OF h] e by (rule trans)
  with h show ?thesis by (rule conjI)
qed

text \<open>
  With the message and the subject joined directly, \<open>urgent\<close> is found across the two
  fields of this inquiry; the contact is persisted with the default priority.
\<close>

theorem priority_concatenation_counterexample:
  "str_includes (toLowerCase (d_message split_inquiry @ the (d_subject split_inquiry))) ''urgent''
   \<and> map_sum id c_priority (Contact_create split_inquiry) = Inr ''medium''"
  by code_simp

text \<open>
  Claim C5, as the code has it. For every contact that \<open>Contact.create\<close> persists, with
  the text being the lower-cased message, one space, and the subject: the tags are, as a
  set, the caller's tags, each lower-cased and trimmed as the schema stores them,
  together with exactly the tags of the rules: \<open>viewing-request\<close> when the text contains
  \<open>viewing\<close> or \<open>visit\<close>, \<open>pricing-inquiry\<close> for \<open>price\<close> or \<open>cost\<close>, \<open>financing\<close> for
  \<open>mortgage\<close> or \<open>financing\<close>, \<open>investment\<close> for \<open>investment\<close>. No tag occurs twice, and
  classifying the classified document again gives the same tags.
\<close>

theorem tag_rule:
  assumes "Contact_create d = Inr c"
  shows "(let t = toLowerCase (d_message d @ '' '' @ (case d_subject d of None \<Rightarrow> [] | Some s \<Rightarrow> s)) in
          set (c_tags c) = set (map (\<lambda>tag. trim (toLowerCase tag)) (d_tags d)) \<union>
           {tag. tag = ''viewing-request''
                   \<and> (str_includes t ''viewing'' \<or> str_includes t ''visit'')
               \<or> tag = ''pricing-inquiry''
                   \<and> (str_includes t ''price'' \<or> str_includes t ''cost'')
               \<or> tag = ''financing''
                   \<and> (str_includes t ''mortgage'' \<or> str_includes t ''financing'')
               \<or> tag = ''investment'' \<and> str_includes t ''investment''})
         \<and> distinct (c_tags c)
         \<and> c_tags (contact_pre_save (contact_pre_save (new_Contact d))) = c_tags c"
proof -
  have n: "c_isNew (new_Contact d)" by (simp add: new_Contact_def)
  have c: "c_tags c = c_tags (contact_pre_save (new_Contact d))"
    using Contact_create_Inr [OF assms] by simp
  have tg: "c_tags (new_Contact d) = map (\<lambda>tag. trim (toLowerCase tag)) (d_tags d)"
    by (simp add: new_Contact_def)
  have "set (c_tags c) = set (map (\<lambda>tag. trim (toLowerCase tag)) (d_tags d))
          \<union> set (auto_tags (messageText (new_Contact d)))"
    by (simp only: c pre_save_tags [OF n] spread_new_Set_def set_add_all_set tg set_append)
       simp
  then have 1: "set (c_tags c) = set (map (\<lambda>tag. trim (toLowerCase tag)) (d_tags d))
          \<union> set (auto_tags (toLowerCase (d_message d @ '' '' @
                (case d_subject d of None \<Rightarrow> [] | Some s \<Rightarrow> s))))"
    by (simp only: auto_tags_text)
  have 2: "distinct (c_tags c)"
    by (simp add: c pre_save_tags [OF n] spread_new_Set_def set_add_all_distinct)
  have 3: "c_tags (contact_pre_save (contact_pre_save (new_Contact d))) = c_tags c"
    by (simp add: c pre_save_idem)
  show ?thesis using 1 2 3 by (simp only: auto_tags_set Let_def)
qed

text \<open>
  An inquiry about financing, sent with the tags \<open>VIP\<close> and \<open>Financing\<close>, is persisted
  with \<open>vip\<close> and \<open>financing\<close>: the rule adds \<open>financing\<close> once more and the duplicate is
  dropped.
\<close>

theorem tag_rule_witness:
  "Contact_create loud_tags_inquiry = Inr loud_tags_created
   \<and> set (c_tags loud_tags_created) = {''vip'', ''financing''}
   \<and> distinct (c_tags loud_tags_created)"
proof -
  have h: "Contact_create loud_tags_inquiry = Inr loud_tags_created" by code_simp
  have t: "toLowerCase (d_message loud_tags_inquiry @ '' '' @
             (case d_subject loud_tags_inquiry of None \<Rightarrow> [] | Some s \<Rightarrow> s))
             = ''please tell me about financing options loans''"
    by code_simp
  have i: "\<not> str_includes ''please tell me about financing options loans'' ''viewing''"
    "\<not> str_includes ''please tell me about financing options loans'' ''visit''"
    "\<not> str_includes ''please tell me about financing options loans'' ''price''"
    "\<not> str_includes ''please tell me about financing options loans'' ''cost''"
    "\<not> str_includes ''please tell me about financing options loans'' ''mortgage''"
    "str_includes ''please tell me about financing options loans'' ''financing''"
    "\<not> str_includes ''please tell me about financing options loans'' ''investment''"
    by code_simp+
  have d: "map (\<lambda>tag. trim (toLowerCase tag)) (d_tags loud_tags_inquiry) = [''vip'', ''financing'']"
    by code_simp
  from tag_rule [OF h] have
    "set (c_tags loud_tags_created) = {''vip'', ''financing''}"
    "distinct (c_tags loud_tags_created)"
    unfolding Let_def t d by (auto simp: i)
  with h show ?thesis by blast
qed

text \<open>
  The same inquiry: the caller's tag \<open>VIP\<close> is not among the persisted tags, which hold
  its lower-cased form.
\<close>

theorem caller_tags_counterexample:
  "map_sum id c_tags (Contact_create loud_tags_inquiry) = Inr [''vip'', ''financing'']
   \<and> ''VIP'' \<in> set (d_tags loud_tags_inquiry)
   \<and> ''VIP'' \<notin> set [''vip'', ''financing'']"
  by code_simp


section \<open>Properties of the contact workflow\<close>

lemma findById_Some:
  "store cid = Some c \<Longrightarrow> Contact_findById store cid = Some (c\<lparr>c_isNew := False\<rparr>)"
  by (simp add: Contact_findById_def)

lemma step_keeps:
  assumes "store cid = Some c"
  shows "\<exists>c'. contact_step cid x store cid = Some c' \<and> c_tags c' = c_tags c
           \<and> (c_priority c' = c_priority c
               \<or> (\<exists>now b. x = (now, Update b) \<and> truthy (b_priority b)
                             \<and> b_priority b = Some (c_priority c')))"
proof (cases x)
  case (Pair now op)
  show ?thesis
  proof (cases op)
    case (Update b)
    show ?thesis
      using assms Pair Update
      by (auto simp: updateContact_def findById_Some Let_def apply_update_def build_updateData_def
               split: option.splits)
  next
    case (MarkContacted nts)
    show ?thesis
      using assms Pair MarkContacted
      by (auto simp: markAsContacted_def findById_Some contact_markAsContacted_def
                     contact_save_def contact_pre_save_def
               split: sum.splits if_splits)
  next
    case Resave
    show ?thesis
      using assms Pair Resave
      by (auto simp: resaveContact_def findById_Some contact_save_def contact_pre_save_def
               split: sum.splits if_splits)
  qed
qed

text \<open>
  Claim C6. For a contact that is already in the store, whatever its message says, no
  run of staff updates, mark-as-contacted requests and further saves changes its tags,
  and its priority after the run is either the one it had or one that an update of the
  run supplied explicitly: the classification of the message is not applied again.
\<close>

theorem classified_once:
  assumes "store cid = Some c"
  shows "\<exists>c'. contact_run cid ops store cid = Some c' \<and> c_tags c' = c_tags c
           \<and> (c_priority c' = c_priority c
               \<or> (\<exists>now b. (now, Update b) \<in> set ops \<and> truthy (b_priority b)
                             \<and> b_priority b = Some (c_priority c')))"
  using assms
proof (induction ops arbitrary: store c)
  case Nil
  then show ?case by simp
next
  case (Cons x xs)
  from step_keeps [of store cid c x] Cons.prems obtain c1 where
    s1: "contact_step cid x store cid = Some c1" and t1: "c_tags c1 = c_tags c"
    and p1: "c_priority c1 = c_priority c
               \<or> (\<exists>now b. x = (now, Update b) \<and> truthy (b_priority b)
                             \<and> b_priority b = Some (c_priority c1))"
    by blast
  from Cons.IH [of "contact_step cid x store" c1] s1 obtain c' where
    r: "contact_run cid xs (contact_step cid x store) cid = Some c'" and t: "c_tags c' = c_tags c1"
    and p: "c_priority c' = c_priority c1
               \<or> (\<exists>now b. (now, Update b) \<in> set xs \<and> truthy (b_priority b)
                             \<and> b_priority b = Some (c_priority c'))"
    by blast
  have "c_priority c' = c_priority c
               \<or> (\<exists>now b. (now, Update b) \<in> set (x # xs) \<and> truthy (b_priority b)
                             \<and> b_priority b = Some (c_priority c'))"
    using p p1 by (metis list.set_intros(1) list.set_intros(2))
  with r t t1 show ?case by simp
qed

text \<open>
  The stored contact says \<open>urgent\<close> and \<open>price\<close>, and staff had set its priority to
  \<open>low\<close> and left it without tags; marking it as contacted, resolving it and saving it
  again leave both as they were.
\<close>

theorem classified_once_witness:
  "one_contact_store 1 = Some stored_contact
   \<and> (\<exists>c'. contact_run 1 [(100, MarkContacted None), (200, Update (set_status ''resolved'')),
                            (300, Resave)] one_contact_store 1 = Some c'
          \<and> c_tags c' = [] \<and> c_priority c' = ''low'')"
proof -
  have h: "one_contact_store 1 = Some stored_contact" by code_simp
  have n: "\<not> (\<exists>now b. (now, Update b) \<in> set [(100, MarkContacted None),
                 (200, Update (set_status ''resolved'')), (300::nat, Resave)]
              \<and> truthy (b_priority b) \<and> b_priority b = Some p)" for p
    by (auto simp: set_status_def)
  have s: "c_tags stored_contact = []" "c_priority stored_contact = ''low''"
    by (simp_all add: stored_contact_def)
  from classified_once [of one_contact_store 1 stored_contact
       "[(100, MarkContacted None), (200, Update (set_status ''resolved'')), (300, Resave)]"] h
  show ?thesis using n s by auto
qed

lemma updateContact_Some:
  "store cid = Some c \<Longrightarrow>
   updateContact now cid b store =
     (if update_validate (build_updateData now b (c\<lparr>c_isNew := False\<rparr>))
      then (Inr (apply_update (build_updateData now b (c\<lparr>c_isNew := False\<rparr>))
                   (c\<lparr>c_isNew := False\<rparr>)),
            store(cid \<mapsto> apply_update (build_updateData now b (c\<lparr>c_isNew := False\<rparr>))
                              (c\<lparr>c_isNew := False\<rparr>)))
      else (Inl ValidationError, store))"
  by (simp add: updateContact_def findById_Some Let_def)

lemma apply_update_responseDate:
  "c_responseDate (apply_update (build_updateData now b (c\<lparr>c_isNew := False\<rparr>))
                    (c\<lparr>c_isNew := False\<rparr>))
     = (if b_status b = Some ''contacted'' \<and> c_status c \<noteq> ''contacted''
        then Some now else c_responseDate c)"
  by (simp add: apply_update_def build_updateData_def)

lemma markAsContacted_Some:
  "store cid = Some c \<Longrightarrow>
   markAsContacted now cid nts store =
     (if contact_validate
           (c\<lparr>c_isNew := False, c_status := ''contacted'', c_responseDate := Some now,
              c_notes := (if truthy nts then nts else c_notes c)\<rparr>)
      then (Inr (c\<lparr>c_status := ''contacted'', c_responseDate := Some now,
                   c_notes := (if truthy nts then nts else c_notes c), c_isNew := False\<rparr>),
            store(cid \<mapsto> c\<lparr>c_status := ''contacted'', c_responseDate := Some now,
                   c_notes := (if truthy nts then nts else c_notes c), c_isNew := False\<rparr>))
      else (Inl ValidationError, store))"
  by (simp add: markAsContacted_def findById_Some contact_markAsContacted_def
                contact_save_def contact_pre_save_def)

text \<open>
  Claim C9, as the code has it. For a contact in the store: a staff update that succeeds
  sets the response date to the time of the request exactly when the request asks for
  the status \<open>contacted\<close> and the stored status is another one, and leaves the response
  date as it was otherwise; marking as contacted a contact whose status is not yet
  \<open>contacted\<close> sets the status and the response date. The date is thus written at each
  entry into \<open>contacted\<close>, also at a later one.
\<close>

theorem responseDate_rule:
  assumes "store cid = Some c"
  shows "(fst (updateContact now cid b store) = Inr c1 \<longrightarrow>
            snd (updateContact now cid b store) cid = Some c1
            \<and> c_responseDate c1 =
                (if b_status b = Some ''contacted'' \<and> c_status c \<noteq> ''contacted''
                 then Some now else c_responseDate c))
       \<and> (c_status c \<noteq> ''contacted'' \<and> fst (markAsContacted now cid nts store) = Inr c2 \<longrightarrow>
            snd (markAsContacted now cid nts store) cid = Some c2
            \<and> c_status c2 = ''contacted'' \<and> c_responseDate c2 = Some now)"
proof (intro conjI impI)
  note uc = updateContact_Some [of store cid c now b, OF assms]
  assume u: "fst (updateContact now cid b store) = Inr c1"
  then have v: "update_validate (build_updateData now b (c\<lparr>c_isNew := False\<rparr>))"
    by (simp add: uc split: if_splits)
  have c1: "c1 = apply_update (build_updateData now b (c\<lparr>c_isNew := False\<rparr>))
                   (c\<lparr>c_isNew := False\<rparr>)"
    using u v by (simp add: uc)
  show "snd (updateContact now cid b store) cid = Some c1"
    using v by (simp add: uc c1)
  show "c_responseDate c1 =
          (if b_status b = Some ''contacted'' \<and> c_status c \<noteq> ''contacted''
           then Some now else c_responseDate c)"
    unfolding c1 by (rule apply_update_responseDate)
next
  note mc = markAsContacted_Some [of store cid c now nts, OF assms]
  assume m: "c_status c \<noteq> ''contacted'' \<and> fst (markAsContacted now cid nts store) = Inr c2"
  then have v: "contact_validate
           (c\<lparr>c_isNew := False, c_status := ''contacted'', c_responseDate := Some now,
              c_notes := (if truthy nts then nts else c_notes c)\<rparr>)"
    by (simp add: mc split: if_splits)
  have c2: "c2 = c\<lparr>c_status := ''contacted'', c_responseDate := Some now,
              c_notes := (if truthy nts then nts else c_notes c), c_isNew := False\<rparr>"
    using m v by (simp add: mc)
  show "snd (markAsContacted now cid nts store) cid = Some c2"
    using v by (simp add: mc c2)
  show "c_status c2 = ''contacted''" by (simp add: c2)
  show "c_responseDate c2 = Some now" by (simp add: c2)
qed

text \<open>
  On the stored contact, which is pending: the update to \<open>contacted\<close> at time 100
  stores the date 100, the update to \<open>spam\<close> stores no date, and marking as contacted at
  time 250 stores the date 250.
\<close>

theorem responseDate_rule_witness:
  "one_contact_store 1 = Some stored_contact
   \<and> c_status stored_contact \<noteq> ''contacted''
   \<and> fst (updateContact 100 1 (set_status ''contacted'') one_contact_store)
       = Inr (stored_contact\<lparr>c_status := ''contacted'', c_responseDate := Some 100\<rparr>)
   \<and> snd (updateContact 100 1 (set_status ''contacted'') one_contact_store) 1
       = Some (stored_contact\<lparr>c_status := ''contacted'', c_responseDate := Some 100\<rparr>)
   \<and> fst (updateContact 100 1 (set_status ''spam'') one_contact_store)
       = Inr (stored_contact\<lparr>c_status := ''spam''\<rparr>)
   \<and> snd (updateContact 100 1 (set_status ''spam'') one_contact_store) 1
       = Some (stored_contact\<lparr>c_status := ''spam''\<rparr>)
   \<and> fst (markAsContacted 250 1 None one_contact_store)
       = Inr (stored_contact\<lparr>c_status := ''contacted'', c_responseDate := Some 250\<rparr>)
   \<and> snd (markAsContacted 250 1 None one_contact_store) 1
       = Some (stored_contact\<lparr>c_status := ''contacted'', c_responseDate := Some 250\<rparr>)"
proof -
  have h: "one_contact_store 1 = Some stored_contact" by code_simp
  have s: "c_status stored_contact \<noteq> ''contacted''" by code_simp
  have u1: "fst (updateContact 100 1 (set_status ''contacted'') one_contact_store)
              = Inr (stored_contact\<lparr>c_status := ''contacted'', c_responseDate := Some 100\<rparr>)"
    by code_simp
  have u2: "fst (updateContact 100 1 (set_status ''spam'') one_contact_store)
              = Inr (stored_contact\<lparr>c_status := ''spam''\<rparr>)"
    by code_simp
  have m: "fst (markAsContacted 250 1 None one_contact_store)
              = Inr (stored_contact\<lparr>c_status := ''contacted'', c_responseDate := Some 250\<rparr>)"
    by code_simp
  have 1: "snd (updateContact 100 1 (set_status ''contacted'') one_contact_store) 1
       = Some (stored_contact\<lparr>c_status := ''contacted'', c_responseDate := Some 100\<rparr>)"
    using responseDate_rule [of one_contact_store 1 stored_contact 100 "set_status ''contacted''"
            "stored_contact\<lparr>c_status := ''contacted'', c_responseDate := Some 100\<rparr>"] h u1
    by blast
  have 2: "snd (updateContact 100 1 (set_status ''spam'') one_contact_store) 1
       = Some (stored_contact\<lparr>c_status := ''spam''\<rparr>)"
    using responseDate_rule [of one_contact_store 1 stored_contact 100 "set_status ''spam''"
            "stored_contact\<lparr>c_status := ''spam''\<rparr>"] h u2
    by blast
  have 3: "snd (markAsContacted 250 1 None one_contact_store) 1
       = Some (stored_contact\<lparr>c_status := ''contacted'', c_responseDate := Some 250\<rparr>)"
    using responseDate_rule [of one_contact_store 1 stored_contact 250 _ _ None
            "stored_contact\<lparr>c_status := ''contacted'', c_responseDate := Some 250\<rparr>"] h m s
    by blast
  show ?thesis using h s u1 u2 m 1 2 3 by blast
qed

text \<open>
  A contact is moved to \<open>contacted\<close> at time 100, to \<open>resolved\<close> at time 200 and to
  \<open>contacted\<close> again at time 300: the response date set at 100 is overwritten with 300.
\<close>

theorem responseDate_overwritten_counterexample:
  "map_option c_responseDate
     (contact_run 1 [(100, Update (set_status ''contacted''))] one_contact_store 1) = Some (Some 100)
   \<and> map_option c_responseDate
     (contact_run 1 [(100, Update (set_status ''contacted'')),
                     (200, Update (set_status ''resolved'')),
                     (300, Update (set_status ''contacted''))] one_contact_store 1) = Some (Some 300)"
  by code_simp


section \<open>Properties of the property list operation\<close>

lemma isNumeric_nonempty: "isNumeric s \<Longrightarrow> s \<noteq> []"
  by (auto simp: isNumeric_def)

lemma validated_nonempty:
  assumes "validatePropertyQuery q"
  shows "\<And>s. rq_type q = Some s \<Longrightarrow> s \<noteq> []"
    and "\<And>s. rq_category q = Some s \<Longrightarrow> s \<noteq> []"
    and "\<And>s. rq_minPrice q = Some s \<Longrightarrow> s \<noteq> []"
    and "\<And>s. rq_maxPrice q = Some s \<Longrightarrow> s \<noteq> []"
    and "\<And>s. rq_location q = Some s \<Longrightarrow> s \<noteq> []"
  using assms
  by (auto simp: validatePropertyQuery_def isIn_def isLength_def dest: isNumeric_nonempty)

lemma build_query_spec:
  assumes "validatePropertyQuery q"
  shows "build_query pf q = buildFilter_spec pf q"
  unfolding build_query_def buildFilter_spec_def
  using validated_nonempty [OF assms]
  by (cases "rq_type q"; cases "rq_category q"; cases "rq_minPrice q"; cases "rq_maxPrice q";
      cases "rq_location q"; cases "rq_featured q") simp_all

text \<open>
  Claim C1. For every request that the validator of the route lets through, the filter
  that \<open>getProperties\<close> builds is the one of the reference builder: the status supplied
  or \<open>Available\<close>; category, type and featured present exactly when supplied, featured
  true exactly for the string \<open>true\<close>; no condition on the price when neither bound is
  supplied, and otherwise one condition that a price \<open>x\<close> meets exactly when it is at
  least the supplied minimum and at most the supplied maximum.
\<close>

theorem filter_refines_reference:
  assumes "validatePropertyQuery q"
  shows "build_query pf q = buildFilter_spec pf q
       \<and> (rq_minPrice q \<noteq> None \<or> rq_maxPrice q \<noteq> None \<longrightarrow>
            (\<exists>pc. mq_price (build_query pf q) = Some pc
               \<and> price_cond_matches pc x =
                   ((case rq_minPrice q of None \<Rightarrow> True | Some lo \<Rightarrow> pf lo \<le> x)
                    \<and> (case rq_maxPrice q of None \<Rightarrow> True | Some hi \<Rightarrow> x \<le> pf hi))))
       \<and> (rq_minPrice q = None \<and> rq_maxPrice q = None \<longrightarrow> mq_price (build_query pf q) = None)"
proof -
  have 1: "build_query pf q = buildFilter_spec pf q" by (rule build_query_spec [OF assms])
  have 2: "rq_minPrice q \<noteq> None \<or> rq_maxPrice q \<noteq> None \<longrightarrow>
            (\<exists>pc. mq_price (build_query pf q) = Some pc
               \<and> price_cond_matches pc x =
                   ((case rq_minPrice q of None \<Rightarrow> True | Some lo \<Rightarrow> pf lo \<le> x)
                    \<and> (case rq_maxPrice q of None \<Rightarrow> True | Some hi \<Rightarrow> x \<le> pf hi)))"
    unfolding 1 buildFilter_spec_def price_cond_matches_def
    by (cases "rq_minPrice q"; cases "rq_maxPrice q") simp_all
  have 3: "rq_minPrice q = None \<and> rq_maxPrice q = None \<longrightarrow> mq_price (build_query pf q) = None"
    unfolding 1 buildFilter_spec_def by simp
  show ?thesis using 1 2 3 by blast
qed

text \<open>
  The request for residential listings between 1000000 and 5000000 passes the validator;
  its filter is the reference one, with \<open>featured = yes\<close> read as false, and the
  villa's price meets the price condition. The same request without the two bounds has
  no condition on the price.
\<close>

theorem filter_refines_reference_witness:
  "validatePropertyQuery villa_query
   \<and> build_query parseFloat_whole villa_query = buildFilter_spec parseFloat_whole villa_query
   \<and> mq_featured (build_query parseFloat_whole villa_query) = Some False
   \<and> (\<exists>pc. mq_price (build_query parseFloat_whole villa_query) = Some pc
          \<and> price_cond_matches pc (p_price villa))
   \<and> validatePropertyQuery unpriced_query
   \<and> mq_price (build_query parseFloat_whole unpriced_query) = None"
proof -
  have h: "validatePropertyQuery villa_query" by code_simp
  have m: "rq_minPrice villa_query \<noteq> None \<or> rq_maxPrice villa_query \<noteq> None" by code_simp
  have e: "((case rq_minPrice villa_query of None \<Rightarrow> True
             | Some lo \<Rightarrow> parseFloat_whole lo \<le> p_price villa)
           \<and> (case rq_maxPrice villa_query of None \<Rightarrow> True
               | Some hi \<Rightarrow> p_price villa \<le> parseFloat_whole hi))"
    by code_simp
  have f: "mq_featured (buildFilter_spec parseFloat_whole villa_query) = Some False"
    by code_simp
  have h2: "validatePropertyQuery unpriced_query" by code_simp
  have n: "rq_minPrice unpriced_query = None \<and> rq_maxPrice unpriced_query = None" by code_simp
  have 1: "build_query parseFloat_whole villa_query = buildFilter_spec parseFloat_whole villa_query
   \<and> mq_featured (build_query parseFloat_whole villa_query) = Some False
   \<and> (\<exists>pc. mq_price (build_query parseFloat_whole villa_query) = Some pc
          \<and> price_cond_matches pc (p_price villa))"
    using filter_refines_reference [OF h, of parseFloat_whole "p_price villa"] m e f by auto
  have 2: "mq_price (build_query parseFloat_whole unpriced_query) = None"
    using filter_refines_reference [OF h2, of parseFloat_whole "p_price villa"] n by blast
  show ?thesis using h h2 1 2 by blast
qed

lemma parse_plain: "plain_text s \<Longrightarrow> parse_pattern s = Some (map Lit s)"
  by (induction s) (auto simp: plain_text_def)

lemma match_here_lit:
  "match_here True (map Lit s) t = prefix (toLowerCase s) (toLowerCase t)"
proof (induction s arbitrary: t)
  case Nil
  then show ?case by (simp add: toLowerCase_def)
next
  case (Cons a s)
  then show ?case by (cases t) (auto simp: toLowerCase_def)
qed

lemma regex_search_lit:
  "regex_search True (map Lit s) t = str_includes (toLowerCase t) (toLowerCase s)"
proof (induction t)
  case Nil
  show ?case by (cases s) (simp_all add: toLowerCase_def)
next
  case (Cons c cs)
  have "match_here True (map Lit s) (c # cs) = prefix (toLowerCase s) (toLowerCase (c # cs))"
    by (rule match_here_lit)
  with Cons show ?case by (simp add: toLowerCase_def)
qed

lemma regex_test_plain:
  "plain_text s \<Longrightarrow> regex_test s ''i'' t = Some (contains_ci s t)"
  by (simp add: regex_test_def parse_plain regex_search_lit contains_ci_def)

lemma contains_ci_iff:
  "contains_ci s t \<longleftrightarrow> (\<exists>p r. toLowerCase t = p @ toLowerCase s @ r)"
  by (simp add: contains_ci_def str_includes_iff)

text \<open>
  Claim C2, as the code has it. For every supplied location string without a
  regular-expression metacharacter and every property document, the location clause of
  the filter matches the document exactly when the string occurs, case-insensitively,
  as a literal substring of the location, the name or the description.
\<close>

theorem location_clause_plain:
  assumes "rq_location q = Some s" and "s \<noteq> []" and "plain_text s"
  shows "\<exists>cl. mq_or (build_query pf q) = Some cl
           \<and> or_matches cl d =
               Some (contains_ci s (p_location d) \<or> contains_ci s (p_name d)
                     \<or> contains_ci s (p_description d))"
proof -
  have cl: "mq_or (build_query pf q) =
      Some [\<lparr>rx_field = ''location'', rx_regex = s, rx_options = ''i''\<rparr>,
            \<lparr>rx_field = ''name'', rx_regex = s, rx_options = ''i''\<rparr>,
            \<lparr>rx_field = ''description'', rx_regex = s, rx_options = ''i''\<rparr>]"
    using assms(1) assms(2) by (simp add: build_query_def)
  have f: "regex_cond_matches \<lparr>rx_field = ''location'', rx_regex = s, rx_options = ''i''\<rparr> d
             = Some (contains_ci s (p_location d))"
    "regex_cond_matches \<lparr>rx_field = ''name'', rx_regex = s, rx_options = ''i''\<rparr> d
             = Some (contains_ci s (p_name d))"
    "regex_cond_matches \<lparr>rx_field = ''description'', rx_regex = s, rx_options = ''i''\<rparr> d
             = Some (contains_ci s (p_description d))"
    using assms(3) by (simp_all add: regex_cond_matches_def string_field_def regex_test_plain)
  show ?thesis unfolding cl by (simp add: f)
qed

text \<open>The search for \<open>beverly\<close> finds the villa, whose location is Beverly Hills.\<close>

theorem location_clause_plain_witness:
  "rq_location villa_query = Some ''beverly'' \<and> ''beverly'' \<noteq> [] \<and> plain_text ''beverly''
   \<and> (\<exists>cl. mq_or (build_query parseFloat_whole villa_query) = Some cl
          \<and> or_matches cl villa = Some True)"
proof -
  have h: "rq_location villa_query = Some ''beverly''" "''beverly'' \<noteq> []" "plain_text ''beverly''"
    by code_simp+
  have e: "contains_ci ''beverly'' (p_location villa)" by code_simp
  from location_clause_plain [OF h, of parseFloat_whole villa] e
  show ?thesis using h by auto
qed

text \<open>
  The location string \<open>h.l\<close> is read as a pattern whose dot stands for any character:
  its clause matches the villa (through \<open>Hil\<close> in Beverly Hills), although \<open>h.l\<close> occurs
  in none of the three fields.
\<close>

theorem location_regex_counterexample:
  "rq_location dot_query = Some ''h.l''
   \<and> map_option (\<lambda>cl. or_matches cl villa) (mq_or (build_query parseFloat_whole dot_query))
       = Some (Some True)
   \<and> \<not> (contains_ci ''h.l'' (p_location villa) \<or> contains_ci ''h.l'' (p_name villa)
          \<or> contains_ci ''h.l'' (p_description villa))"
  by code_simp

lemma ceil_div_eq: "0 < b \<Longrightarrow> ceil_div a b = (a + b - 1) div b"
proof -
  assume b: "0 < b"
  have "ceil_div a b = - \<lfloor>(of_int (- a) :: rat) / of_int b\<rfloor>"
    by (simp add: ceil_div_def ceiling_def)
  also have "\<dots> = - ((- a) div b)"
    by (simp only: floor_divide_of_int_eq)
  also have "\<dots> = (a + b - 1) div b"
  proof -
    have e: "a + b - 1 = b * (- ((- a) div b)) + (b - 1 - (- a) mod b)"
      using mult_div_mod_eq [of b "- a"] by (simp add: algebra_simps)
    have m: "0 \<le> (- a) mod b" "(- a) mod b < b"
      using b by simp_all
    have r: "0 \<le> b - 1 - (- a) mod b" "b - 1 - (- a) mod b < b"
      using m by linarith+
    show ?thesis using int_div_pos_eq [OF e r] by simp
  qed
  finally show ?thesis .
qed

lemma ceiling_div_real: "0 < b \<Longrightarrow> \<lceil>real_of_int a / real_of_int b\<rceil> = ceil_div a b"
proof -
  assume b: "0 < b"
  have "\<lceil>real_of_int a / real_of_int b\<rceil> = - \<lfloor>real_of_int (- a) / real_of_int b\<rfloor>"
    by (simp add: ceiling_def)
  also have "\<dots> = - ((- a) div b)"
    by (simp only: floor_divide_of_int_eq)
  also have "\<dots> = - \<lfloor>(of_int (- a) :: rat) / of_int b\<rfloor>"
    by (simp only: floor_divide_of_int_eq)
  also have "\<dots> = ceil_div a b"
    by (simp add: ceil_div_def ceiling_def)
  finally show ?thesis .
qed

lemma ceil_div_least:
  assumes "0 < b"
  shows "a \<le> ceil_div a b * b" and "(ceil_div a b - 1) * b < a"
proof -
  define c where "c = (a + b - 1) div b"
  define m where "m = (a + b - 1) mod b"
  have cd: "ceil_div a b = c" unfolding c_def by (rule ceil_div_eq [OF assms])
  have m: "0 \<le> m" "m < b" unfolding m_def using assms by simp_all
  have e: "c * b = a + b - 1 - m"
    unfolding c_def m_def using div_mult_mod_eq [of "a + b - 1" b] by linarith
  show "a \<le> ceil_div a b * b" unfolding cd e using m by linarith
  have "(c - 1) * b = c * b - b" by (simp add: algebra_simps)
  then show "(ceil_div a b - 1) * b < a" unfolding cd using e m by linarith
qed

text \<open>
  Claim C3, as the code has it. For every page number of at least 1, every limit of at
  least 1 and every list of matching documents, \<open>getProperties\<close> answers with:
  \<open>currentPage\<close> the page, \<open>itemsPerPage\<close> the limit, \<open>totalItems\<close> the number of matching
  documents, \<open>totalPages\<close> the ceiling of \<open>totalItems / limit\<close> (the least number of pages
  that hold all items, 0 when there are none), the items from offset
  \<open>(page - 1) * limit\<close> on, at most \<open>limit\<close> of them, \<open>hasNextPage\<close> false exactly when
  \<open>currentPage\<close> is at least \<open>totalPages\<close>, and \<open>hasPreviousPage\<close> false exactly when
  \<open>currentPage\<close> is 1.
\<close>

theorem pagination_rule:
  assumes "(case rq_page q of None \<Rightarrow> Some 1 | Some p \<Rightarrow> parseInt p) = Some page"
    and "(case rq_limit q of None \<Rightarrow> Some 10 | Some l \<Rightarrow> parseInt l) = Some limit"
    and "1 \<le> page" and "1 \<le> limit"
  shows "\<exists>r. getProperties_page q results = Some r
           \<and> currentPage (page_info r) = page
           \<and> itemsPerPage (page_info r) = limit
           \<and> totalItems (page_info r) = int (length results)
           \<and> totalPages (page_info r) = \<lceil>real (length results) / real_of_int limit\<rceil>
           \<and> int (length results) \<le> totalPages (page_info r) * limit
           \<and> (totalPages (page_info r) - 1) * limit < int (length results)
           \<and> (results = [] \<longrightarrow> totalPages (page_info r) = 0)
           \<and> properties r = take (nat limit) (drop (nat ((page - 1) * limit)) results)
           \<and> (\<not> hasNextPage (page_info r))
                = (totalPages (page_info r) \<le> currentPage (page_info r))
           \<and> (\<not> hasPreviousPage (page_info r)) = (currentPage (page_info r) = 1)"
proof -
  have b: "0 < limit" using assms(4) by simp
  have r: "\<lceil>real (length results) / real_of_int limit\<rceil> = ceil_div (int (length results)) limit"
    using ceiling_div_real [OF b, of "int (length results)"] by simp
  have z: "results = [] \<longrightarrow> ceil_div (int (length results)) limit = 0"
    using b by (simp add: ceil_div_eq)
  show ?thesis
    using assms ceil_div_least [OF b, of "int (length results)"] z
    by (auto simp: getProperties_page_def Let_def r)
qed

text \<open>
  Page 2 with limit 2 over five items: items 3 and 4, three pages, both flags true. Over
  no items: no pages and no next page.
\<close>

theorem pagination_rule_witness:
  "(case rq_page villa_query of None \<Rightarrow> Some 1 | Some p \<Rightarrow> parseInt p) = Some 2
   \<and> (case rq_limit villa_query of None \<Rightarrow> Some 10 | Some l \<Rightarrow> parseInt l) = Some 2
   \<and> (1::int) \<le> 2
   \<and> (\<exists>r. getProperties_page villa_query [''a'', ''b'', ''c'', ''d'', ''e''] = Some r
          \<and> properties r = [''c'', ''d'']
          \<and> currentPage (page_info r) = 2 \<and> totalPages (page_info r) = 3
          \<and> hasNextPage (page_info r) \<and> hasPreviousPage (page_info r))
   \<and> (\<exists>r. getProperties_page villa_query ([] :: string list) = Some r
          \<and> totalPages (page_info r) = 0 \<and> \<not> hasNextPage (page_info r))"
proof -
  have h: "(case rq_page villa_query of None \<Rightarrow> Some 1 | Some p \<Rightarrow> parseInt p) = Some 2"
    "(case rq_limit villa_query of None \<Rightarrow> Some 10 | Some l \<Rightarrow> parseInt l) = Some 2"
    "(1::int) \<le> 2" "(1::int) \<le> 2"
    by code_simp+
  have c: "\<lceil>real (length [''a'', ''b'', ''c'', ''d'', ''e'']) / real_of_int 2\<rceil> = 3"
    by (simp add: ceiling_divide_eq_div_numeral)
  have t: "take (nat 2) (drop (nat ((2 - 1) * 2)) [''a'', ''b'', ''c'', ''d'', ''e'']) = [''c'', ''d'']"
    by simp
  from pagination_rule [OF h, of "[''a'', ''b'', ''c'', ''d'', ''e'']"]
  obtain r where r: "getProperties_page villa_query [''a'', ''b'', ''c'', ''d'', ''e''] = Some r"
    "currentPage (page_info r) = 2"
    "totalPages (page_info r) = \<lceil>real (length [''a'', ''b'', ''c'', ''d'', ''e'']) / real_of_int 2\<rceil>"
    "properties r = take (nat 2) (drop (nat ((2 - 1) * 2)) [''a'', ''b'', ''c'', ''d'', ''e''])"
    "(\<not> hasNextPage (page_info r)) = (totalPages (page_info r) \<le> currentPage (page_info r))"
    "(\<not> hasPreviousPage (page_info r)) = (currentPage (page_info r) = 1)"
    by blast
  have p: "properties r = [''c'', ''d'']" using r(4) t by simp
  have n: "totalPages (page_info r) = 3" using r(3) c by simp
  have x: "hasNextPage (page_info r)" using r(5) r(2) n by simp
  have y: "hasPreviousPage (page_info r)" using r(6) r(2) by simp
  from pagination_rule [OF h, of "[] :: string list"]
  obtain r0 where r0: "getProperties_page villa_query ([] :: string list) = Some r0"
    "currentPage (page_info r0) = 2"
    "([] :: string list) = [] \<longrightarrow> totalPages (page_info r0) = 0"
    "(\<not> hasNextPage (page_info r0)) = (totalPages (page_info r0) \<le> currentPage (page_info r0))"
    by blast
  have z: "totalPages (page_info r0) = 0" using r0(3) by simp
  have w: "\<not> hasNextPage (page_info r0)" using r0(4) r0(2) z by simp
  show ?thesis using h r(1) r(2) p n x y r0(1) z w by blast
qed

text \<open>
  Page 3 with limit 10 over five items: \<open>hasNextPage\<close> is false, although the current
  page is not the last page (there is one page) and there are items.
\<close>

theorem hasNextPage_counterexample:
  "map_option page_info (getProperties_page far_page_query [''a'', ''b'', ''c'', ''d'', ''e''])
     = Some \<lparr>currentPage = 3, totalPages = 1, totalItems = 5, itemsPerPage = 10,
             hasNextPage = False, hasPreviousPage = True\<rparr>
   \<and> \<not> ((hasNextPage \<lparr>currentPage = 3, totalPages = 1, totalItems = 5, itemsPerPage = 10,
             hasNextPage = False, hasPreviousPage = True\<rparr> = False)
        = (currentPage \<lparr>currentPage = 3, totalPages = 1, totalItems = 5, itemsPerPage = 10,
             hasNextPage = False, hasPreviousPage = True\<rparr>
           = totalPages \<lparr>currentPage = 3, totalPages = 1, totalItems = 5, itemsPerPage = 10,
             hasNextPage = False, hasPreviousPage = True\<rparr>
           \<or> totalItems \<lparr>currentPage = 3, totalPages = 1, totalItems = 5, itemsPerPage = 10,
             hasNextPage = False, hasPreviousPage = True\<rparr> = 0))"
  by code_simp


section \<open>Properties of the display strings and of the service read\<close>

text \<open>
  Claim C7. For every service, with the cases read in their order: the price type
  \<open>free\<close> gives \<open>Free\<close>; otherwise the price type \<open>consultation\<close>, or a price of zero,
  gives \<open>Contact for pricing\<close>; \<open>hourly\<close> with a price other than zero gives the
  currency string followed by \<open>/hour\<close>; \<open>percentage\<close> with a price other than zero gives
  the number followed by \<open>%\<close>; every other price type with a price other than zero gives
  the currency string.
\<close>

theorem formattedPrice_rule:
  "(s_priceType s = ''free'' \<longrightarrow> formattedPrice fmt str s = ''Free'')
   \<and> (s_priceType s \<noteq> ''free'' \<and> (s_priceType s = ''consultation'' \<or> s_price s = 0) \<longrightarrow>
        formattedPrice fmt str s = ''Contact for pricing'')
   \<and> (s_priceType s = ''hourly'' \<and> s_price s \<noteq> 0 \<longrightarrow>
        formattedPrice fmt str s = fmt (s_price s) @ ''/hour'')
   \<and> (s_priceType s = ''percentage'' \<and> s_price s \<noteq> 0 \<longrightarrow>
        formattedPrice fmt str s = str (s_price s) @ ''%'')
   \<and> (s_priceType s \<notin> {''free'', ''consultation'', ''hourly'', ''percentage''} \<and> s_price s \<noteq> 0 \<longrightarrow>
        formattedPrice fmt str s = fmt (s_price s))"
proof (intro conjI impI)
  assume "s_priceType s = ''free''"
  then show "formattedPrice fmt str s = ''Free''"
    by (simp add: formattedPrice_def)
next
  assume "s_priceType s \<noteq> ''free'' \<and> (s_priceType s = ''consultation'' \<or> s_price s = 0)"
  then show "formattedPrice fmt str s = ''Contact for pricing''"
    by (auto simp: formattedPrice_def)
next
  assume "s_priceType s = ''hourly'' \<and> s_price s \<noteq> 0"
  then show "formattedPrice fmt str s = fmt (s_price s) @ ''/hour''"
    by (simp add: formattedPrice_def Let_def)
next
  assume "s_priceType s = ''percentage'' \<and> s_price s \<noteq> 0"
  then show "formattedPrice fmt str s = str (s_price s) @ ''%''"
    by (simp add: formattedPrice_def Let_def)
next
  assume "s_priceType s \<notin> {''free'', ''consultation'', ''hourly'', ''percentage''} \<and> s_price s \<noteq> 0"
  then show "formattedPrice fmt str s = fmt (s_price s)"
    by (simp add: formattedPrice_def Let_def)
qed

text \<open>
  The examples of the specification: 200 an hour is \<open>$200.00/hour\<close>, 6 percent is \<open>6%\<close>,
  a free service is \<open>Free\<close>; a price of zero asks to contact, and a fixed price of 200
  is \<open>$200.00\<close>.
\<close>

theorem formattedPrice_rule_witness:
  "formattedPrice usd_currency number_to_string hourly_service = ''$200.00/hour''
   \<and> formattedPrice usd_currency number_to_string percentage_service = ''6%''
   \<and> formattedPrice usd_currency number_to_string (hourly_service\<lparr>s_priceType := ''free''\<rparr>) = ''Free''
   \<and> formattedPrice usd_currency number_to_string (hourly_service\<lparr>s_price := 0\<rparr>)
       = ''Contact for pricing''
   \<and> formattedPrice usd_currency number_to_string (hourly_service\<lparr>s_priceType := ''fixed''\<rparr>)
       = ''$200.00''"
proof -
  have e: "usd_currency 200 = ''$200.00''" "number_to_string 6 = ''6''" by code_simp+
  have 1: "formattedPrice usd_currency number_to_string hourly_service = ''$200.00/hour''"
    using formattedPrice_rule [of hourly_service usd_currency number_to_string] e
    by (simp add: hourly_service_def)
  have 2: "formattedPrice usd_currency number_to_string percentage_service = ''6%''"
    using formattedPrice_rule [of percentage_service usd_currency number_to_string] e
    by (simp add: percentage_service_def)
  have 3: "formattedPrice usd_currency number_to_string (hourly_service\<lparr>s_priceType := ''free''\<rparr>) = ''Free''"
    using formattedPrice_rule [of "hourly_service\<lparr>s_priceType := ''free''\<rparr>" usd_currency number_to_string]
    by simp
  have 4: "formattedPrice usd_currency number_to_string (hourly_service\<lparr>s_price := 0\<rparr>)
       = ''Contact for pricing''"
    using formattedPrice_rule [of "hourly_service\<lparr>s_price := 0\<rparr>" usd_currency number_to_string]
    by (simp add: hourly_service_def)
  have 5: "formattedPrice usd_currency number_to_string (hourly_service\<lparr>s_priceType := ''fixed''\<rparr>)
       = ''$200.00''"
    using formattedPrice_rule [of "hourly_service\<lparr>s_priceType := ''fixed''\<rparr>" usd_currency number_to_string] e
    by (simp add: hourly_service_def)
  show ?thesis using 1 2 3 4 5 by blast
qed

text \<open>
  Claim C8, as the code has it. For every listing, a save (the one of its creation, or a
  later one) with a price other than zero sets the stored \<open>priceFormatted\<close> to the
  currency formatting of the current price, whatever the caller supplied for it; a save
  with the price zero leaves \<open>priceFormatted\<close> as it was. The price itself is not
  changed, and \<open>createProperty\<close> stores and returns the saved document.
\<close>

theorem priceFormatted_on_save:
  "(p_price p \<noteq> 0 \<longrightarrow> p_priceFormatted (property_pre_save fmt p) = Some (fmt (p_price p)))
   \<and> (p_price p = 0 \<longrightarrow> p_priceFormatted (property_pre_save fmt p) = p_priceFormatted p)
   \<and> p_price (property_pre_save fmt p) = p_price p
   \<and> fst (createProperty fmt pid p store) = property_pre_save fmt p
   \<and> snd (createProperty fmt pid p store) pid = Some (property_pre_save fmt p)"
proof (cases "p_price p = 0")
  case True
  then have "property_pre_save fmt p = p" by (simp add: property_pre_save_def)
  with True show ?thesis by (simp add: createProperty_def Let_def)
next
  case False
  then have "property_pre_save fmt p = p\<lparr>p_priceFormatted := Some (fmt (p_price p))\<rparr>"
    by (simp add: property_pre_save_def)
  with False show ?thesis by (simp add: createProperty_def Let_def)
qed

text \<open>
  The villa is saved with \<open>$4,500,000.00\<close>; the listing with the price zero is saved
  without a formatted price.
\<close>

theorem priceFormatted_on_save_witness:
  "p_price villa \<noteq> 0
   \<and> p_priceFormatted (property_pre_save usd_currency villa) = Some ''$4,500,000.00''
   \<and> p_price zero_price_listing = 0
   \<and> p_priceFormatted (property_pre_save usd_currency zero_price_listing) = None"
proof -
  have h: "p_price villa \<noteq> 0" "p_price zero_price_listing = 0"
    "p_priceFormatted zero_price_listing = None"
    by (simp_all add: villa_def zero_price_listing_def)
  have e: "usd_currency (p_price villa) = ''$4,500,000.00''" by code_simp
  have 1: "p_priceFormatted (property_pre_save usd_currency villa) = Some ''$4,500,000.00''"
    using priceFormatted_on_save [of villa usd_currency 1 Map.empty] h(1) e by metis
  have 2: "p_priceFormatted (property_pre_save usd_currency zero_price_listing) = None"
    using priceFormatted_on_save [of zero_price_listing usd_currency 1 Map.empty] h(2) h(3)
    by metis
  show ?thesis using h 1 2 by blast
qed

text \<open>
  A listing created with the price zero: the currency formatting of its price is
  \<open>$0.00\<close>, and the created document has no \<open>priceFormatted\<close>.
\<close>

theorem priceFormatted_zero_counterexample:
  "usd_currency (p_price zero_price_listing) = ''$0.00''
   \<and> p_priceFormatted (fst (createProperty usd_currency 1 zero_price_listing Map.empty)) = None"
  by code_simp

text \<open>
  The update of a stored listing writes the fields of the request and nothing else: a
  request that changes the price and carries no \<open>priceFormatted\<close> leaves the stored
  string as it was.
\<close>

lemma updateProperty_keeps_priceFormatted:
  assumes "store pid = Some p" and "pu_priceFormatted body = None"
  shows "\<exists>p'. updateProperty pid body store = (Inr p', store(pid \<mapsto> p'))
           \<and> p_priceFormatted p' = p_priceFormatted p
           \<and> p_price p' = (case pu_price body of None \<Rightarrow> p_price p | Some v \<Rightarrow> v)"
  using assms by (simp add: updateProperty_def apply_property_update_def Let_def)

text \<open>
  Claim C10. For every service that is in the store with its active flag false, the
  public read answers 404 with the code \<open>NOT_FOUND\<close>, leaves the store (and so the view
  counter) as it was, and its response is the one given, at the same time, for an id
  that is not in the store.
\<close>

theorem inactive_service_not_found:
  assumes "store sid = Some s" and "\<not> s_active s" and "store2 sid2 = None"
  shows "getService now saved store sid
           = (Failure 404 ''NOT_FOUND'' ''Service not found'' now, store)
       \<and> fst (getService now saved store sid) = fst (getService now saved store2 sid2)"
proof -
  have inactive: "getService now saved store sid
                    = (Failure 404 ''NOT_FOUND'' ''Service not found'' now, store)"
    using assms(1) assms(2) by (simp add: getService_def)
  have missing: "getService now saved store2 sid2
                    = (Failure 404 ''NOT_FOUND'' ''Service not found'' now, store2)"
    using assms(3) by (simp add: getService_def)
  show ?thesis by (simp add: inactive missing)
qed

text \<open>Service 2 of the example store is inactive; id 3 is not in the store.\<close>

theorem inactive_service_not_found_witness:
  "service_store 2 = Some percentage_service \<and> \<not> s_active percentage_service
   \<and> service_store 3 = None
   \<and> getService 1700000000000 True service_store 2
       = (Failure 404 ''NOT_FOUND'' ''Service not found'' 1700000000000, service_store)
   \<and> fst (getService 1700000000000 True service_store 2)
       = fst (getService 1700000000000 True service_store 3)"
proof -
  have h: "service_store 2 = Some percentage_service" "\<not> s_active percentage_service"
    "service_store 3 = None"
    by code_simp+
  from inactive_service_not_found [of service_store 2 percentage_service service_store 3
         1700000000000 True] h
  show ?thesis by blast
qed

end
